theory Spec2Isabelle
  imports Complex_Main
begin

text \<open>
  A shallow embedding of the voice activity detector of \<open>avr-vad\<close>: the class
  \<open>SileroVAD\<close> and \<open>AudioUtils.createFrames\<close>. The sources hold two revisions of the
  class. The one in \<open>src/silero-vad.ts\<close> needs an initialised session and throws when the
  inference fails; its operations carry the names of the source. The one that follows
  the manifest in \<open>package.json\<close> falls back to an energy heuristic; where it differs,
  its operations carry the suffix \<open>_pkg\<close>. \<open>validateOptions\<close>, \<open>updateState\<close>,
  \<open>extractSpeechSegments\<close>, \<open>reset\<close> and \<open>getState\<close> are the same text in both.
\<close>

section \<open>Data model (types.ts)\<close>

text \<open>
  JavaScript numbers that carry audio samples, probabilities, durations and timestamps
  are modelled as \<^typ>\<open>real\<close> (rounding and NaN are left out); counters, sizes and
  indices are \<^typ>\<open>nat\<close>. A \<open>Float32Array\<close> is a \<^typ>\<open>real list\<close>. Methods that mutate
  the object take it and return it; a method that can throw returns an \<open>error\<close> on the
  left of a sum, next to the object as the throw leaves it.
\<close>

text \<open>
  The values an option of type \<open>number\<close> can hold when the caller passes it: a finite
  number, an infinity, \<open>NaN\<close>, or \<open>undefined\<close> (an optional property accepts it). The
  options reach the comparisons of the code unchecked, so the model keeps them as they
  are.
\<close>

datatype jsval = Num real | PosInf | NegInf | NaN | Undefined

text \<open>
  The comparisons of JavaScript between such a value and a finite number: \<open>js_ge x y\<close>
  is \<open>x >= y\<close>, \<open>js_lt y x\<close> is \<open>y < x\<close>, \<open>js_gt y x\<close> is \<open>y > x\<close>. A comparison with
  \<open>NaN\<close> is false, and \<open>undefined\<close> is converted to \<open>NaN\<close>.
\<close>

fun js_ge :: "real \<Rightarrow> jsval \<Rightarrow> bool" where
  "js_ge x (Num y) = (x \<ge> y)"
| "js_ge x PosInf = False"
| "js_ge x NegInf = True"
| "js_ge x NaN = False"
| "js_ge x Undefined = False"

fun js_lt :: "jsval \<Rightarrow> real \<Rightarrow> bool" where
  "js_lt (Num y) x = (y < x)"
| "js_lt PosInf x = False"
| "js_lt NegInf x = True"
| "js_lt NaN x = False"
| "js_lt Undefined x = False"

fun js_gt :: "jsval \<Rightarrow> real \<Rightarrow> bool" where
  "js_gt (Num y) x = (y > x)"
| "js_gt PosInf x = True"
| "js_gt NegInf x = False"
| "js_gt NaN x = False"
| "js_gt Undefined x = False"

text \<open>
  \<open>VADOptions\<close>: what the caller passes to the constructor. \<open>None\<close> is a key that is
  absent, \<open>Some\<close> a key that is present, also with the value \<open>undefined\<close>.
\<close>

record VADOptions =
  sampleRate_opt :: "jsval option"
  frameSize_opt :: "jsval option"
  threshold_opt :: "jsval option"
  minSpeechDurationMs_opt :: "jsval option"
  maxSilenceDurationMs_opt :: "jsval option"
  modelPath_opt :: "string option option"

text \<open>
  \<open>this.options\<close> as the object spread of the constructor builds it, before
  \<open>validateOptions\<close> has seen it: any key may hold any value the caller passed
  (\<open>None\<close> is a model path that is \<open>undefined\<close>).
\<close>

record MergedOptions =
  sampleRate_raw :: jsval
  frameSize_raw :: jsval
  threshold_raw :: jsval
  minSpeechDurationMs_raw :: jsval
  maxSilenceDurationMs_raw :: jsval
  modelPath_raw :: "string option"

text \<open>
  \<open>this.options\<close> of a constructed object. \<open>validateOptions\<close> lets the sample rate
  through only if it is 8000 or 16000 and sets the frame size to 1536, so these two are
  natural numbers; the threshold and the two durations are kept as the caller passed
  them.
\<close>

record RequiredVADOptions =
  sampleRate :: nat
  frameSize :: nat
  threshold :: jsval
  minSpeechDurationMs :: jsval
  maxSilenceDurationMs :: jsval
  modelPath :: "string option"

record VADResult =
  probability :: real
  isSpeech :: bool
  frame :: nat
  timestamp :: real

record AudioSegment =
  start :: real
  end' :: real
  audioData :: "real list"
  confidence :: real

record VADState =
  currentFrame :: nat
  speechActive :: bool
  speechStart :: "real option"
  silenceDuration :: real
  speechDuration :: real

text \<open>
  The fields of class \<open>SileroVAD\<close> in \<open>src/silero-vad.ts\<close>. The inference session is
  external: the object only records whether \<open>this.session\<close> is non-null.
\<close>

record SileroVAD =
  session :: bool
  options :: RequiredVADOptions
  state :: VADState
  h_lstm :: "real list"
  c_lstm :: "real list"

text \<open>
  The second revision of the class (the source that follows the manifest in
  \<open>package.json\<close>) adds the flag \<open>useOnnxModel\<close>.
\<close>

record SileroVAD_pkg = SileroVAD +
  useOnnxModel :: bool

text \<open>Everything the code throws.\<close>

datatype error =
    SampleRateError
  | ThresholdError
  | InitializeError string
  | NotInitialized
  | FrameSizeError nat nat
  | ProcessingError string
  | TypeError

text \<open>
  Console output is modelled where the constructor corrects the frame size; the other
  log lines of the class are left out.
\<close>

datatype warning = FrameSizeWarning jsval

text \<open>
  One call of \<open>session.run(feeds)\<close> followed by the reads of \<open>results.output\<close> and
  \<open>results.stateN\<close>: from the audio frame, the recurrent state and the sample rate to
  either the message of whatever was thrown, or the probability and the new recurrent
  state when the model returns one. The runtime is external, so it is a parameter.
\<close>

type_synonym backend = "real list \<Rightarrow> real list \<Rightarrow> nat \<Rightarrow> string + (real \<times> real list option)"

section \<open>Construction and validation\<close>

text \<open>The literal the constructor spreads first.\<close>

definition merged_defaults :: MergedOptions where
  "merged_defaults =
     \<lparr>sampleRate_raw = Num 16000, frameSize_raw = Num 1536, threshold_raw = Num 0.5,
      minSpeechDurationMs_raw = Num 250, maxSilenceDurationMs_raw = Num 2000,
      modelPath_raw = Some ''''\<rparr>"

text \<open>
  The object spread \<open>{ ...defaults, ...options }\<close> of the constructor: every key that is
  present in \<open>options\<close> replaces the default, whatever its value.
\<close>

definition spread_options :: "MergedOptions \<Rightarrow> VADOptions \<Rightarrow> MergedOptions" where
  "spread_options d o' =
     \<lparr>sampleRate_raw = (case sampleRate_opt o' of None \<Rightarrow> sampleRate_raw d | Some x \<Rightarrow> x),
      frameSize_raw = (case frameSize_opt o' of None \<Rightarrow> frameSize_raw d | Some x \<Rightarrow> x),
      threshold_raw = (case threshold_opt o' of None \<Rightarrow> threshold_raw d | Some x \<Rightarrow> x),
      minSpeechDurationMs_raw =
        (case minSpeechDurationMs_opt o' of
           None \<Rightarrow> minSpeechDurationMs_raw d | Some x \<Rightarrow> x),
      maxSilenceDurationMs_raw =
        (case maxSilenceDurationMs_opt o' of
           None \<Rightarrow> maxSilenceDurationMs_raw d | Some x \<Rightarrow> x),
      modelPath_raw = (case modelPath_opt o' of None \<Rightarrow> modelPath_raw d | Some x \<Rightarrow> x)\<rparr>"

definition initial_state :: VADState where
  "initial_state =
     \<lparr>currentFrame = 0, speechActive = False, speechStart = None,
      silenceDuration = 0, speechDuration = 0\<rparr>"

text \<open>
  \<open>validateOptions\<close>: the sample rate is checked first
  (\<open>[8000, 16000].includes(sampleRate)\<close>), then a frame size other than 1536 is replaced by
  1536 with a warning, then the threshold is checked (\<open>threshold < 0 || threshold > 1\<close>).
  It returns the options as it leaves them and the warnings it wrote.
\<close>

definition validateOptions ::
  "MergedOptions \<Rightarrow> error + (RequiredVADOptions \<times> warning list)" where
  "validateOptions m =
     (if sampleRate_raw m \<notin> set [Num 8000, Num 16000] then Inl SampleRateError
      else
        let warns = (if frameSize_raw m \<noteq> Num 1536
                     then [FrameSizeWarning (frameSize_raw m)] else [])
        in if js_lt (threshold_raw m) 0 \<or> js_gt (threshold_raw m) 1 then Inl ThresholdError
           else Inr (\<lparr>sampleRate = (if sampleRate_raw m = Num 8000 then 8000 else 16000),
                      frameSize = 1536,
                      threshold = threshold_raw m,
                      minSpeechDurationMs = minSpeechDurationMs_raw m,
                      maxSilenceDurationMs = maxSilenceDurationMs_raw m,
                      modelPath = modelPath_raw m\<rparr>,
                     warns))"

text \<open>The options an object built without arguments holds.\<close>

definition default_options :: RequiredVADOptions where
  "default_options =
     \<lparr>sampleRate = 16000, frameSize = 1536, threshold = Num 0.5,
      minSpeechDurationMs = Num 250, maxSilenceDurationMs = Num 2000,
      modelPath = Some ''''\<rparr>"

text \<open>The constructor of \<open>src/silero-vad.ts\<close>; a throw leaves no object.\<close>

definition new_SileroVAD :: "VADOptions \<Rightarrow> error + (SileroVAD \<times> warning list)" where
  "new_SileroVAD o' =
     (case validateOptions (spread_options merged_defaults o') of
        Inl e \<Rightarrow> Inl e
      | Inr (opts, warns) \<Rightarrow>
          Inr (\<lparr>session = False, options = opts, state = initial_state,
                h_lstm = replicate (2 * 1 * 128) 0, c_lstm = replicate (2 * 1 * 128) 0\<rparr>,
               warns))"

text \<open>The constructor of the revision with the fallback flag.\<close>

definition new_SileroVAD_pkg :: "VADOptions \<Rightarrow> error + (SileroVAD_pkg \<times> warning list)" where
  "new_SileroVAD_pkg o' =
     (case validateOptions (spread_options merged_defaults o') of
        Inl e \<Rightarrow> Inl e
      | Inr (opts, warns) \<Rightarrow>
          Inr (\<lparr>session = False, options = opts, state = initial_state,
                h_lstm = replicate (2 * 1 * 128) 0, c_lstm = replicate (2 * 1 * 128) 0,
                useOnnxModel = True\<rparr>,
               warns))"

text \<open>
  \<open>initialize\<close> of \<open>src/silero-vad.ts\<close>. Finding, validating and loading the model file
  is external: \<open>load\<close> is its outcome, the message of a failure or success.
\<close>

definition initialize :: "string option \<Rightarrow> SileroVAD \<Rightarrow> (error + unit) \<times> SileroVAD" where
  "initialize load v =
     (case load of
        Some msg \<Rightarrow> (Inl (InitializeError msg), v)
      | None \<Rightarrow> (Inr (), v\<lparr>session := True\<rparr>))"

text \<open>
  \<open>initialize\<close> of the revision with the fallback flag: a failure to load the model, or
  a failure of the trial run of \<open>testModel\<close> (outcome \<open>test\<close>), is caught and clears
  \<open>useOnnxModel\<close>; nothing is thrown.
\<close>

definition initialize_pkg :: "string option \<Rightarrow> string option \<Rightarrow> SileroVAD_pkg \<Rightarrow> SileroVAD_pkg" where
  "initialize_pkg load test v =
     (case load of
        Some msg \<Rightarrow> v\<lparr>useOnnxModel := False\<rparr>
      | None \<Rightarrow>
          (case test of
             Some msg \<Rightarrow> v\<lparr>session := True, useOnnxModel := False\<rparr>
           | None \<Rightarrow> v\<lparr>session := True\<rparr>))"

section \<open>The activity state machine\<close>

definition frameDurationMs :: "RequiredVADOptions \<Rightarrow> real" where
  "frameDurationMs opts = (real (frameSize opts) / real (sampleRate opts)) * 1000"

definition updateState :: "RequiredVADOptions \<Rightarrow> bool \<Rightarrow> real \<Rightarrow> VADState \<Rightarrow> VADState" where
  "updateState opts isSp ts s =
     (if isSp then
        (let s1 = (if \<not> speechActive s
                   then s\<lparr>speechActive := True, speechStart := Some ts, speechDuration := 0\<rparr>
                   else s)
         in s1\<lparr>speechDuration := speechDuration s1 + frameDurationMs opts,
                silenceDuration := 0\<rparr>)
      else if speechActive s then
        (let s1 = s\<lparr>silenceDuration := silenceDuration s + frameDurationMs opts\<rparr>
         in if js_ge (silenceDuration s1) (maxSilenceDurationMs opts)
            then s1\<lparr>speechActive := False, speechStart := None\<rparr>
            else s1)
      else s)"

definition reset :: "'a SileroVAD_scheme \<Rightarrow> 'a SileroVAD_scheme" where
  "reset v =
     v\<lparr>state := initial_state,
       h_lstm := map (\<lambda>_. 0) (h_lstm v),
       c_lstm := map (\<lambda>_. 0) (c_lstm v)\<rparr>"

definition getState :: "'a SileroVAD_scheme \<Rightarrow> VADState" where
  "getState v = state v"

definition getOptions :: "'a SileroVAD_scheme \<Rightarrow> RequiredVADOptions" where
  "getOptions v = options v"

section \<open>Processing one frame\<close>

text \<open>
  \<open>target.set(source)\<close> on typed arrays copies \<open>source\<close> over the front of \<open>target\<close>
  and throws a \<open>RangeError\<close> when \<open>source\<close> is longer.
\<close>

definition typed_set :: "real list \<Rightarrow> real list \<Rightarrow> real list option" where
  "typed_set target source =
     (if length source > length target then None
      else Some (source @ drop (length source) target))"

definition RangeError_msg :: string where
  "RangeError_msg = ''RangeError: offset is out of bounds''"

text \<open>
  The tail both revisions of \<open>processFrame\<close> share once a probability is known: the
  timestamp from the frame counter, the decision against the threshold, the state
  update, the result object and the increment of the counter.
\<close>

definition decide :: "RequiredVADOptions \<Rightarrow> VADState \<Rightarrow> real \<Rightarrow> VADResult \<times> VADState" where
  "decide opts s prob =
     (let ts = real (currentFrame s) * (real (frameSize opts) / real (sampleRate opts)) * 1000;
          isSp = js_ge prob (threshold opts);
          s1 = updateState opts isSp ts s;
          result = \<lparr>probability = prob, isSpeech = isSp, frame = currentFrame s1, timestamp = ts\<rparr>
      in (result, s1\<lparr>currentFrame := currentFrame s1 + 1\<rparr>))"

text \<open>
  \<open>processFrame\<close> of \<open>src/silero-vad.ts\<close>. Whatever is thrown inside the \<open>try\<close> (by the
  run, by reading its outputs or by \<open>h.set\<close>) is thrown again as a processing error,
  before the state or the counter is touched.
\<close>

definition processFrame :: "backend \<Rightarrow> SileroVAD \<Rightarrow> real list \<Rightarrow> (error + VADResult) \<times> SileroVAD" where
  "processFrame run v audioFrame =
     (if \<not> session v then (Inl NotInitialized, v)
      else if length audioFrame \<noteq> frameSize (options v)
        then (Inl (FrameSizeError (frameSize (options v)) (length audioFrame)), v)
      else
        (case run audioFrame (h_lstm v) (sampleRate (options v)) of
           Inl msg \<Rightarrow> (Inl (ProcessingError msg), v)
         | Inr (prob, stateN) \<Rightarrow>
             (case (case stateN of None \<Rightarrow> Some (h_lstm v)
                                 | Some newState \<Rightarrow> typed_set (h_lstm v) newState) of
                None \<Rightarrow> (Inl (ProcessingError RangeError_msg), v)
              | Some h1 \<Rightarrow>
                  (let (result, s1) = decide (options v) (state v) prob
                   in (Inr result, v\<lparr>h_lstm := h1, state := s1\<rparr>)))))"

text \<open>
  \<open>energyBasedVAD\<close>: root-mean-square energy mapped from [0.001, 0.1] to [0, 1] and
  clamped. (On an empty frame JavaScript computes NaN; \<open>processFrame\<close> only passes
  frames of \<open>frameSize\<close> samples, and the constructor makes that 1536.)
\<close>

definition energyBasedVAD :: "real list \<Rightarrow> real" where
  "energyBasedVAD audioFrame =
     (let sum = foldl (\<lambda>acc x. acc + x * x) 0 audioFrame;
          rms = sqrt (sum / real (length audioFrame));
          minEnergy = 0.001;
          maxEnergy = 0.1;
          normalizedEnergy = (rms - minEnergy) / (maxEnergy - minEnergy)
      in max 0 (min 1 normalizedEnergy))"

text \<open>
  \<open>processFrame\<close> of the revision with the fallback flag. There is no session check;
  a failure inside the \<open>try\<close> is caught, clears \<open>useOnnxModel\<close> and takes the energy
  value for this very frame. The first component of the inner pair is the probability,
  the second the object as the first half of the method leaves it.
\<close>

definition processFrame_pkg ::
  "backend \<Rightarrow> SileroVAD_pkg \<Rightarrow> real list \<Rightarrow> (error + VADResult) \<times> SileroVAD_pkg" where
  "processFrame_pkg run v audioFrame =
     (if length audioFrame \<noteq> frameSize (options v)
        then (Inl (FrameSizeError (frameSize (options v)) (length audioFrame)), v)
      else
        (let (prob, v1) =
               (if useOnnxModel v \<and> session v then
                  (case run audioFrame (h_lstm v) (sampleRate (options v)) of
                     Inl msg \<Rightarrow> (energyBasedVAD audioFrame, v\<lparr>useOnnxModel := False\<rparr>)
                   | Inr (p, stateN) \<Rightarrow>
                       (case (case stateN of None \<Rightarrow> Some (h_lstm v)
                                           | Some newState \<Rightarrow> typed_set (h_lstm v) newState) of
                          None \<Rightarrow> (energyBasedVAD audioFrame, v\<lparr>useOnnxModel := False\<rparr>)
                        | Some h1 \<Rightarrow> (p, v\<lparr>h_lstm := h1\<rparr>)))
                else (energyBasedVAD audioFrame, v));
             (result, s1) = decide (options v1) (state v1) prob
         in (Inr result, v1\<lparr>state := s1\<rparr>)))"

text \<open>
  A caller that submits frames one after the other, each call with the behaviour the
  backend shows at that call, and keeps going after a call that threw.
\<close>

fun processFrames :: "(backend \<times> real list) list \<Rightarrow> SileroVAD \<Rightarrow> (error + VADResult) list \<times> SileroVAD" where
  "processFrames [] v = ([], v)"
| "processFrames ((run, audioFrame) # calls) v =
     (let (r, v1) = processFrame run v audioFrame;
          (rs, v2) = processFrames calls v1
      in (r # rs, v2))"

fun processFrames_pkg ::
  "(backend \<times> real list) list \<Rightarrow> SileroVAD_pkg \<Rightarrow> (error + VADResult) list \<times> SileroVAD_pkg" where
  "processFrames_pkg [] v = ([], v)"
| "processFrames_pkg ((run, audioFrame) # calls) v =
     (let (r, v1) = processFrame_pkg run v audioFrame;
          (rs, v2) = processFrames_pkg calls v1
      in (r # rs, v2))"

section \<open>Processing a whole buffer\<close>

text \<open>
  \<open>processAudio\<close>: the loop \<open>for (i = 0; i < audioData.length; i += frameSize)\<close>, with
  \<open>frameSize\<close> read from the options once, before the loop. The chunk is
  \<open>audioData.slice(i, i + frameSize)\<close>; a short one is copied into a fresh zero-filled
  array of \<open>frameSize\<close> samples before it is submitted. \<open>runs k\<close> is the behaviour of
  the backend at the \<open>k\<close>-th call. A throw of \<open>processFrame\<close> ends the loop with that
  error. With a frame size of 0 the loop never ends: the result is then \<open>None\<close>.
\<close>

partial_function (option) processAudio_loop ::
  "(nat \<Rightarrow> backend) \<Rightarrow> real list \<Rightarrow> nat \<Rightarrow> nat \<Rightarrow> nat \<Rightarrow> VADResult list \<Rightarrow> SileroVAD
     \<Rightarrow> ((error + VADResult list) \<times> SileroVAD) option" where
  "processAudio_loop runs audio fs i k results v =
     (if i < length audio then
        (let chunk = take fs (drop i audio)
         in case (if length chunk < fs
                  then processFrame (runs k) v (chunk @ replicate (fs - length chunk) 0)
                  else processFrame (runs k) v chunk) of
              (Inl e, v1) \<Rightarrow> Some (Inl e, v1)
            | (Inr result, v1) \<Rightarrow>
                processAudio_loop runs audio fs (i + fs) (Suc k) (results @ [result]) v1)
      else Some (Inr results, v))"

definition processAudio ::
  "(nat \<Rightarrow> backend) \<Rightarrow> SileroVAD \<Rightarrow> real list \<Rightarrow> ((error + VADResult list) \<times> SileroVAD) option" where
  "processAudio runs v audio = processAudio_loop runs audio (frameSize (options v)) 0 0 [] v"

partial_function (option) processAudio_pkg_loop ::
  "(nat \<Rightarrow> backend) \<Rightarrow> real list \<Rightarrow> nat \<Rightarrow> nat \<Rightarrow> nat \<Rightarrow> VADResult list \<Rightarrow> SileroVAD_pkg
     \<Rightarrow> ((error + VADResult list) \<times> SileroVAD_pkg) option" where
  "processAudio_pkg_loop runs audio fs i k results v =
     (if i < length audio then
        (let chunk = take fs (drop i audio)
         in case (if length chunk < fs
                  then processFrame_pkg (runs k) v (chunk @ replicate (fs - length chunk) 0)
                  else processFrame_pkg (runs k) v chunk) of
              (Inl e, v1) \<Rightarrow> Some (Inl e, v1)
            | (Inr result, v1) \<Rightarrow>
                processAudio_pkg_loop runs audio fs (i + fs) (Suc k) (results @ [result]) v1)
      else Some (Inr results, v))"

definition processAudio_pkg ::
  "(nat \<Rightarrow> backend) \<Rightarrow> SileroVAD_pkg \<Rightarrow> real list
     \<Rightarrow> ((error + VADResult list) \<times> SileroVAD_pkg) option" where
  "processAudio_pkg runs v audio =
     processAudio_pkg_loop runs audio (frameSize (options v)) 0 0 [] v"

section \<open>Frame splitting (audio-utils.ts)\<close>

text \<open>
  \<open>AudioUtils.createFrames\<close>: \<open>hop = hopSize || frameSize\<close> (an absent or zero hop is
  the frame size), then \<open>for (i = 0; i <= audioData.length - frameSize; i += hop)\<close>.
  The bound is compared over the integers, as the subtraction can be negative. With a
  hop of 0 the loop never ends: the result is then \<open>None\<close>.
\<close>

partial_function (option) createFrames_loop ::
  "real list \<Rightarrow> nat \<Rightarrow> nat \<Rightarrow> nat \<Rightarrow> real list list \<Rightarrow> real list list option" where
  "createFrames_loop audio fs hop i frames =
     (if int i \<le> int (length audio) - int fs
      then createFrames_loop audio fs hop (i + hop) (frames @ [take fs (drop i audio)])
      else Some frames)"

definition createFrames :: "real list \<Rightarrow> nat \<Rightarrow> nat option \<Rightarrow> real list list option" where
  "createFrames audio fs hopSize =
     (let hop = (case hopSize of None \<Rightarrow> fs | Some x \<Rightarrow> if x = 0 then fs else x)
      in createFrames_loop audio fs hop 0 [])"

section \<open>Segment extraction\<close>

text \<open>
  \<open>TypedArray.prototype.slice(start, end)\<close> with integer arguments: a negative index
  counts from the end, both are clamped to the array, and an empty range gives an empty
  array.
\<close>

definition js_slice :: "'a list \<Rightarrow> int \<Rightarrow> int \<Rightarrow> 'a list" where
  "js_slice xs start_i end_i =
     (let len = int (length xs);
          k = (if start_i < 0 then max (len + start_i) 0 else min start_i len);
          final = (if end_i < 0 then max (len + end_i) 0 else min end_i len)
      in take (nat (final - k)) (drop (nat k) xs))"

text \<open>
  The \<open>reduce\<close> of the confidence: \<open>sum + vadResults[frame].probability\<close> from 0, left
  to right. An index outside the array reads \<open>undefined\<close>, and reading \<open>.probability\<close>
  of it throws a \<open>TypeError\<close>.
\<close>

fun confidence_sum :: "VADResult list \<Rightarrow> nat list \<Rightarrow> real \<Rightarrow> error + real" where
  "confidence_sum vadResults [] acc = Inr acc"
| "confidence_sum vadResults (f # fs) acc =
     (if f < length vadResults
      then confidence_sum vadResults fs (acc + probability (vadResults ! f))
      else Inl TypeError)"

text \<open>
  The local variables of \<open>extractSpeechSegments\<close>: \<open>segmentStart\<close>, \<open>speechFrames\<close> and
  \<open>segments\<close>.
\<close>

type_synonym scan = "real option \<times> nat list \<times> AudioSegment list"

text \<open>The body of the \<open>for (const result of vadResults)\<close> loop.\<close>

definition extract_step ::
  "RequiredVADOptions \<Rightarrow> VADResult list \<Rightarrow> real list \<Rightarrow> scan \<Rightarrow> VADResult \<Rightarrow> error + scan" where
  "extract_step opts vadResults audio st result =
     (case st of (segmentStart, speechFrames, segments) \<Rightarrow>
        if isSpeech result then
          Inr (case segmentStart of None \<Rightarrow> Some (timestamp result) | Some t \<Rightarrow> Some t,
               speechFrames @ [frame result], segments)
        else
          (case segmentStart of
             None \<Rightarrow> Inr st
           | Some segStart \<Rightarrow>
               if length speechFrames > 0 then
                 (let segmentEnd = timestamp result;
                      duration = segmentEnd - segStart
                  in if js_ge duration (minSpeechDurationMs opts) then
                       (let startSample = \<lfloor>(segStart / 1000) * real (sampleRate opts)\<rfloor>;
                            endSample = \<lfloor>(segmentEnd / 1000) * real (sampleRate opts)\<rfloor>;
                            segmentAudio = js_slice audio startSample endSample
                        in case confidence_sum vadResults speechFrames 0 of
                             Inl e \<Rightarrow> Inl e
                           | Inr total_p \<Rightarrow>
                               Inr (None, [],
                                    segments @
                                    [\<lparr>start = segStart, end' = segmentEnd,
                                      audioData = segmentAudio,
                                      confidence = total_p / real (length speechFrames)\<rparr>]))
                     else Inr (None, [], segments))
               else Inr st))"

fun extract_loop ::
  "RequiredVADOptions \<Rightarrow> VADResult list \<Rightarrow> real list \<Rightarrow> VADResult list \<Rightarrow> scan
     \<Rightarrow> error + AudioSegment list" where
  "extract_loop opts vadResults audio [] st = (case st of (_, _, segments) \<Rightarrow> Inr segments)"
| "extract_loop opts vadResults audio (result # rest) st =
     (case extract_step opts vadResults audio st result of
        Inl e \<Rightarrow> Inl e
      | Inr st1 \<Rightarrow> extract_loop opts vadResults audio rest st1)"

text \<open>\<open>extractSpeechSegments\<close> reads \<open>this.options\<close> and nothing else of the object.\<close>

definition extractSpeechSegments ::
  "RequiredVADOptions \<Rightarrow> VADResult list \<Rightarrow> real list \<Rightarrow> error + AudioSegment list" where
  "extractSpeechSegments opts vadResults audio =
     extract_loop opts vadResults audio vadResults (None, [], [])"

section \<open>Notions the properties are stated with\<close>

text \<open>
  The \<open>try\<close> block of \<open>processFrame\<close> throws: the run (or the read of its outputs)
  throws, or the model returns a state that does not fit into \<open>h\<close>.
\<close>

definition inference_fails :: "backend \<Rightarrow> 'a SileroVAD_scheme \<Rightarrow> real list \<Rightarrow> bool" where
  "inference_fails run v audioFrame =
     (case run audioFrame (h_lstm v) (sampleRate (options v)) of
        Inl msg \<Rightarrow> True
      | Inr (p, None) \<Rightarrow> False
      | Inr (p, Some newState) \<Rightarrow> length newState > length (h_lstm v))"

text \<open>
  What can happen to the activity state of an object: a per-frame update
  \<open>this.updateState(isSpeech, timestamp)\<close>, or \<open>reset()\<close>.
\<close>

datatype action = Update bool real | Reset

fun perform :: "'a SileroVAD_scheme \<Rightarrow> action \<Rightarrow> 'a SileroVAD_scheme" where
  "perform v (Update isSp ts) = v\<lparr>state := updateState (options v) isSp ts (state v)\<rparr>"
| "perform v Reset = reset v"


text \<open>
  The tail policy of \<open>processAudio\<close> in the specification's words: the buffer cut into
  chunks of \<open>fs\<close> samples, the last one filled up with zeros.
\<close>

function zero_padded_chunks :: "nat \<Rightarrow> real list \<Rightarrow> real list list" where
  "zero_padded_chunks fs audio =
     (if fs = 0 \<or> audio = [] then []
      else (take fs audio @ replicate (fs - length (take fs audio)) 0)
             # zero_padded_chunks fs (drop fs audio))"
  by pat_completeness auto
termination
  by (relation "measure (\<lambda>(fs, audio). length audio)") auto

text \<open>
  The tail policy of \<open>createFrames\<close> in the specification's words: consecutive slices
  of \<open>fs\<close> samples, a shorter rest dropped.
\<close>

function whole_frames :: "nat \<Rightarrow> real list \<Rightarrow> real list list" where
  "whole_frames fs audio =
     (if fs = 0 \<or> length audio < fs then []
      else take fs audio # whole_frames fs (drop fs audio))"
  by pat_completeness auto
termination
  by (relation "measure (\<lambda>(fs, audio). length audio)") auto

text \<open>
  Frames submitted in order, the \<open>k\<close>-th through \<open>pf k\<close>, stopping at the first one that
  throws; the decisions are collected behind \<open>results\<close>.
\<close>

fun process_chunks ::
  "(nat \<Rightarrow> 'v \<Rightarrow> real list \<Rightarrow> (error + VADResult) \<times> 'v) \<Rightarrow> nat \<Rightarrow> real list list
     \<Rightarrow> VADResult list \<Rightarrow> 'v \<Rightarrow> (error + VADResult list) \<times> 'v" where
  "process_chunks pf k [] results v = (Inr results, v)"
| "process_chunks pf k (chunk # chunks) results v =
     (case pf k v chunk of
        (Inl e, v1) \<Rightarrow> (Inl e, v1)
      | (Inr result, v1) \<Rightarrow> process_chunks pf (Suc k) chunks (results @ [result]) v1)"

subsection \<open>Concrete inputs\<close>

definition no_options :: VADOptions where
  "no_options =
     \<lparr>sampleRate_opt = None, frameSize_opt = None, threshold_opt = None,
      minSpeechDurationMs_opt = None, maxSilenceDurationMs_opt = None, modelPath_opt = None\<rparr>"

text \<open>The object \<open>new SileroVAD()\<close> builds, and the same after a successful \<open>initialize()\<close>.\<close>

definition fresh_vad :: SileroVAD where
  "fresh_vad =
     \<lparr>session = False, options = default_options, state = initial_state,
      h_lstm = replicate 256 0, c_lstm = replicate 256 0\<rparr>"

definition ready_vad :: SileroVAD where
  "ready_vad = fresh_vad\<lparr>session := True\<rparr>"

definition fresh_vad_pkg :: SileroVAD_pkg where
  "fresh_vad_pkg =
     \<lparr>session = False, options = default_options, state = initial_state,
      h_lstm = replicate 256 0, c_lstm = replicate 256 0, useOnnxModel = True\<rparr>"

definition ready_vad_pkg :: SileroVAD_pkg where
  "ready_vad_pkg = fresh_vad_pkg\<lparr>session := True\<rparr>"

definition silent_frame :: "real list" where
  "silent_frame = replicate 1536 0"

definition failing_backend :: backend where
  "failing_backend = (\<lambda>audioFrame hs sr. Inl ''inference failed'')"

definition steady_backend :: "real \<Rightarrow> backend" where
  "steady_backend p = (\<lambda>audioFrame hs sr. Inr (p, None))"

text \<open>An object in the middle of an utterance, one frame of speech behind it.\<close>

definition talking_state :: VADState where
  "talking_state =
     \<lparr>currentFrame = 1, speechActive = True, speechStart = Some 0,
      silenceDuration = 0, speechDuration = 96\<rparr>"

text \<open>
  Decisions at 16 kHz (96 ms per frame): three frames of speech, one of silence, four
  of speech. \<open>late_decisions\<close> are three frames of speech and one of silence numbered
  from 4, as a session hands them out that has already seen four frames.
\<close>

definition decision :: "real \<Rightarrow> bool \<Rightarrow> nat \<Rightarrow> VADResult" where
  "decision p sp n = \<lparr>probability = p, isSpeech = sp, frame = n, timestamp = real n * 96\<rparr>"

definition early_decisions :: "VADResult list" where
  "early_decisions =
     [decision 0.9 True 0, decision 0.8 True 1, decision 0.7 True 2, decision 0.1 False 3]"

definition trailing_decisions :: "VADResult list" where
  "trailing_decisions =
     [decision 0.9 True 4, decision 0.9 True 5, decision 0.9 True 6, decision 0.9 True 7]"

definition late_decisions :: "VADResult list" where
  "late_decisions =
     [decision 0.9 True 4, decision 0.8 True 5, decision 0.7 True 6, decision 0.1 False 7]"

section \<open>Construction\<close>

lemma new_SileroVAD_no_options: "new_SileroVAD no_options = Inr (fresh_vad, [])"
  by (simp add: new_SileroVAD_def validateOptions_def spread_options_def merged_defaults_def
        default_options_def no_options_def fresh_vad_def)

lemma new_SileroVAD_pkg_no_options: "new_SileroVAD_pkg no_options = Inr (fresh_vad_pkg, [])"
  by (simp add: new_SileroVAD_pkg_def validateOptions_def spread_options_def
        merged_defaults_def default_options_def no_options_def fresh_vad_pkg_def)

lemma initialize_fresh_vad: "initialize None fresh_vad = (Inr (), ready_vad)"
  by (simp add: initialize_def ready_vad_def)

lemma initialize_fresh_vad_pkg: "initialize_pkg None None fresh_vad_pkg = ready_vad_pkg"
  by (simp add: initialize_pkg_def ready_vad_pkg_def)

text \<open>What an object that was built holds.\<close>

lemma validateOptions_Inr:
  "validateOptions m = Inr (opts1, warns) \<Longrightarrow>
     (sampleRate opts1 = 8000 \<or> sampleRate opts1 = 16000) \<and> frameSize opts1 = 1536 \<and>
     \<not> js_lt (threshold opts1) 0 \<and> \<not> js_gt (threshold opts1) 1"
  by (auto simp: validateOptions_def Let_def split: if_splits)

text \<open>The whole outcome of the two constructors, for any options.\<close>

lemma validateOptions_eq:
  "validateOptions m =
     (if sampleRate_raw m \<noteq> Num 8000 \<and> sampleRate_raw m \<noteq> Num 16000 then Inl SampleRateError
      else if js_lt (threshold_raw m) 0 \<or> js_gt (threshold_raw m) 1 then Inl ThresholdError
      else Inr (\<lparr>sampleRate = (if sampleRate_raw m = Num 8000 then 8000 else 16000),
                 frameSize = 1536,
                 threshold = threshold_raw m,
                 minSpeechDurationMs = minSpeechDurationMs_raw m,
                 maxSilenceDurationMs = maxSilenceDurationMs_raw m,
                 modelPath = modelPath_raw m\<rparr>,
                if frameSize_raw m \<noteq> Num 1536 then [FrameSizeWarning (frameSize_raw m)] else []))"
  by (simp add: validateOptions_def Let_def)

lemma new_SileroVAD_eq:
  "new_SileroVAD o' =
     (case validateOptions (spread_options merged_defaults o') of
        Inl e \<Rightarrow> Inl e
      | Inr (opts, warns) \<Rightarrow>
          Inr (\<lparr>session = False, options = opts, state = initial_state,
                h_lstm = replicate 256 0, c_lstm = replicate 256 0\<rparr>, warns))"
  by (simp add: new_SileroVAD_def split: sum.splits)

lemma new_SileroVAD_pkg_eq:
  "new_SileroVAD_pkg o' =
     (case validateOptions (spread_options merged_defaults o') of
        Inl e \<Rightarrow> Inl e
      | Inr (opts, warns) \<Rightarrow>
          Inr (\<lparr>session = False, options = opts, state = initial_state,
                h_lstm = replicate 256 0, c_lstm = replicate 256 0, useOnnxModel = True\<rparr>,
               warns))"
  by (simp add: new_SileroVAD_pkg_def split: sum.splits)

text \<open>
  A key that is present with the value \<open>undefined\<close> replaces the default: as a sample
  rate it is rejected, as a threshold it passes both comparisons of the check and is
  kept.
\<close>

lemma undefined_replaces_default:
  "new_SileroVAD (no_options\<lparr>sampleRate_opt := Some Undefined\<rparr>) = Inl SampleRateError \<and>
   new_SileroVAD (no_options\<lparr>threshold_opt := Some Undefined\<rparr>) =
     Inr (fresh_vad\<lparr>options := default_options\<lparr>threshold := Undefined\<rparr>\<rparr>, [])"
  by (simp add: new_SileroVAD_def validateOptions_def spread_options_def merged_defaults_def
        default_options_def no_options_def fresh_vad_def)

text \<open>
  C7, as the code has it. Let \<open>m\<close> be the options after the spread. Construction, in
  either revision, throws and leaves no object when the sample rate of \<open>m\<close> is neither
  8000 nor 16000, and when it is one of them and the threshold of \<open>m\<close> is below 0 or
  above 1 (the two comparisons of the check). A frame size other than 1536 is no
  error: when the sample rate is 8000 or 16000 and the threshold is a number from 0 to
  1, then whatever the frame size of \<open>m\<close> is, the object is built, its frame size is 1536,
  and a warning was written exactly when the frame size of \<open>m\<close> was not 1536.
\<close>

theorem constructor_validation:
  "(sampleRate_raw (spread_options merged_defaults o') \<noteq> Num 8000 \<and>
    sampleRate_raw (spread_options merged_defaults o') \<noteq> Num 16000 \<longrightarrow>
      new_SileroVAD o' = Inl SampleRateError \<and> new_SileroVAD_pkg o' = Inl SampleRateError) \<and>
   ((sampleRate_raw (spread_options merged_defaults o') = Num 8000 \<or>
     sampleRate_raw (spread_options merged_defaults o') = Num 16000) \<and>
    (js_lt (threshold_raw (spread_options merged_defaults o')) 0 \<or>
     js_gt (threshold_raw (spread_options merged_defaults o')) 1) \<longrightarrow>
      new_SileroVAD o' = Inl ThresholdError \<and> new_SileroVAD_pkg o' = Inl ThresholdError) \<and>
   ((sampleRate_raw (spread_options merged_defaults o') = Num 8000 \<or>
     sampleRate_raw (spread_options merged_defaults o') = Num 16000) \<and>
    threshold_raw (spread_options merged_defaults o') = Num t \<and> 0 \<le> t \<and> t \<le> 1 \<longrightarrow>
      (\<exists>v w.
         new_SileroVAD o' =
           Inr (v, if frameSize_raw (spread_options merged_defaults o') \<noteq> Num 1536
                   then [FrameSizeWarning (frameSize_raw (spread_options merged_defaults o'))]
                   else []) \<and>
         new_SileroVAD_pkg o' =
           Inr (w, if frameSize_raw (spread_options merged_defaults o') \<noteq> Num 1536
                   then [FrameSizeWarning (frameSize_raw (spread_options merged_defaults o'))]
                   else []) \<and>
         frameSize (options v) = 1536 \<and> frameSize (options w) = 1536 \<and>
         threshold (options v) = Num t \<and> threshold (options w) = Num t \<and>
         state v = initial_state \<and> state w = initial_state \<and>
         \<not> session v \<and> \<not> session w \<and> useOnnxModel w))"
  by (auto simp: new_SileroVAD_eq new_SileroVAD_pkg_eq validateOptions_eq)

text \<open>
  Three constructions: a sample rate of 44100 and a threshold of 1.5 are rejected, the
  default options are accepted.
\<close>

theorem constructor_validation_witness:
  "new_SileroVAD (no_options\<lparr>sampleRate_opt := Some (Num 44100)\<rparr>) = Inl SampleRateError \<and>
   new_SileroVAD (no_options\<lparr>threshold_opt := Some (Num 1.5)\<rparr>) = Inl ThresholdError \<and>
   new_SileroVAD_pkg (no_options\<lparr>threshold_opt := Some (Num (- 0.1))\<rparr>) = Inl ThresholdError \<and>
   (\<exists>v. new_SileroVAD (no_options\<lparr>frameSize_opt := Some (Num 512)\<rparr>) =
          Inr (v, [FrameSizeWarning (Num 512)]) \<and> frameSize (options v) = 1536)"
proof -
  have a: "new_SileroVAD (no_options\<lparr>sampleRate_opt := Some (Num 44100)\<rparr>) = Inl SampleRateError"
    using constructor_validation [of "no_options\<lparr>sampleRate_opt := Some (Num 44100)\<rparr>"]
    by (simp add: spread_options_def merged_defaults_def no_options_def)
  have b: "new_SileroVAD (no_options\<lparr>threshold_opt := Some (Num 1.5)\<rparr>) = Inl ThresholdError"
    using constructor_validation [of "no_options\<lparr>threshold_opt := Some (Num 1.5)\<rparr>"]
    by (simp add: spread_options_def merged_defaults_def no_options_def)
  have c: "new_SileroVAD_pkg (no_options\<lparr>threshold_opt := Some (Num (- 0.1))\<rparr>) =
      Inl ThresholdError"
    using constructor_validation [of "no_options\<lparr>threshold_opt := Some (Num (- 0.1))\<rparr>"]
    by (simp add: spread_options_def merged_defaults_def no_options_def)
  have d: "\<exists>v. new_SileroVAD (no_options\<lparr>frameSize_opt := Some (Num 512)\<rparr>) =
          Inr (v, [FrameSizeWarning (Num 512)]) \<and> frameSize (options v) = 1536"
    using constructor_validation [of "no_options\<lparr>frameSize_opt := Some (Num 512)\<rparr>" "0.5"]
    by (simp add: spread_options_def merged_defaults_def no_options_def) blast
  from a b c d show ?thesis by blast
qed

text \<open>
  The options of \<open>examples/test-example.js\<close>, with a frame size of 320: the object is
  built, holds a frame size of 1536, and one warning was written. And a threshold that
  is \<open>NaN\<close>, which is not in [0, 1]: both comparisons of the check are false, the object
  is built and holds \<open>NaN\<close>.
\<close>

theorem frame_size_mismatch_accepted:
  "new_SileroVAD
     \<lparr>sampleRate_opt = Some (Num 8000), frameSize_opt = Some (Num 320),
      threshold_opt = Some (Num 0.5), minSpeechDurationMs_opt = Some (Num 250),
      maxSilenceDurationMs_opt = Some (Num 2000), modelPath_opt = None\<rparr> =
   Inr (\<lparr>session = False,
         options = \<lparr>sampleRate = 8000, frameSize = 1536, threshold = Num 0.5,
                    minSpeechDurationMs = Num 250, maxSilenceDurationMs = Num 2000,
                    modelPath = Some ''''\<rparr>,
         state = initial_state, h_lstm = replicate 256 0, c_lstm = replicate 256 0\<rparr>,
        [FrameSizeWarning (Num 320)]) \<and>
   new_SileroVAD (no_options\<lparr>threshold_opt := Some NaN\<rparr>) =
     Inr (fresh_vad\<lparr>options := default_options\<lparr>threshold := NaN\<rparr>\<rparr>, [])"
  by (simp add: new_SileroVAD_def validateOptions_def spread_options_def merged_defaults_def
        default_options_def no_options_def fresh_vad_def)

section \<open>The activity state machine\<close>

lemma updateState_silent:
  "speechActive s \<Longrightarrow>
   updateState opts False ts s =
     (if js_ge (silenceDuration s + frameDurationMs opts) (maxSilenceDurationMs opts)
      then s\<lparr>silenceDuration := silenceDuration s + frameDurationMs opts,
             speechActive := False, speechStart := None\<rparr>
      else s\<lparr>silenceDuration := silenceDuration s + frameDurationMs opts\<rparr>)"
  by (simp add: updateState_def Let_def)

lemma updateState_speech:
  "updateState opts True ts s =
     (if speechActive s
      then s\<lparr>speechDuration := speechDuration s + frameDurationMs opts, silenceDuration := 0\<rparr>
      else s\<lparr>speechActive := True, speechStart := Some ts,
             speechDuration := frameDurationMs opts, silenceDuration := 0\<rparr>)"
  by (simp add: updateState_def Let_def)

lemma updateState_idle: "\<not> speechActive s \<Longrightarrow> updateState opts False ts s = s"
  by (simp add: updateState_def)

lemma frameDurationMs_default: "frameDurationMs default_options = 96"
  by (simp add: frameDurationMs_def default_options_def)

lemma silent_frames:
  assumes "speechActive s" and "tss \<noteq> []"
    and "\<forall>j. 0 < j \<and> j < length tss \<longrightarrow>
           \<not> js_ge (silenceDuration s + real j * frameDurationMs opts)
                (maxSilenceDurationMs opts)"
  shows "silenceDuration (fold (updateState opts False) tss s) =
           silenceDuration s + real (length tss) * frameDurationMs opts \<and>
         (if \<not> js_ge (silenceDuration s + real (length tss) * frameDurationMs opts)
                  (maxSilenceDurationMs opts)
          then speechActive (fold (updateState opts False) tss s) \<and>
               speechStart (fold (updateState opts False) tss s) = speechStart s
          else \<not> speechActive (fold (updateState opts False) tss s) \<and>
               speechStart (fold (updateState opts False) tss s) = None)"
  using assms
proof (induction tss rule: rev_induct)
  case Nil
  then show ?case by simp
next
  case (snoc t ys)
  show ?case
  proof (cases "ys = []")
    case True
    with snoc.prems(1) show ?thesis by (simp add: updateState_silent)
  next
    case False
    have below: "\<forall>j. 0 < j \<and> j < length ys \<longrightarrow>
           \<not> js_ge (silenceDuration s + real j * frameDurationMs opts)
                (maxSilenceDurationMs opts)"
      using snoc.prems(3) by simp
    have here: "\<not> js_ge (silenceDuration s + real (length ys) * frameDurationMs opts)
                  (maxSilenceDurationMs opts)"
      using snoc.prems(3) False by simp
    let ?m = "fold (updateState opts False) ys s"
    from snoc.IH[OF snoc.prems(1) False below] here
    have m: "silenceDuration ?m = silenceDuration s + real (length ys) * frameDurationMs opts"
      "speechActive ?m" "speechStart ?m = speechStart s"
      by simp_all
    have sum: "silenceDuration s + real (length ys) * frameDurationMs opts +
        frameDurationMs opts =
        silenceDuration s + real (length (ys @ [t])) * frameDurationMs opts"
      by (simp add: algebra_simps)
    show ?thesis
      using m by (simp add: updateState_silent sum del: length_append)
  qed
qed

text \<open>
  C2. Start from an active state and process one or more consecutive non-speech
  frames, such that after every frame but the last the accumulated silence
  (the silence at the start plus one frame duration per silent frame) is still below
  \<open>maxSilenceDurationMs\<close>: the comparison \<open>silenceDuration >= maxSilenceDurationMs\<close> of
  the code is false, which for a maximum that is a number \<open>m\<close> means that the silence is
  less than \<open>m\<close>. Then the silence counter holds the accumulated silence; if that is
  still below the maximum the machine is still active with its start timestamp
  untouched; otherwise, this being the frame on which the silence first reaches the
  maximum, \<open>speechActive\<close> is false and \<open>speechStart\<close> is null.
\<close>

theorem hysteresis_window:
  assumes "speechActive s" and "tss \<noteq> []"
    and "\<forall>j. 0 < j \<and> j < length tss \<longrightarrow>
           \<not> js_ge (silenceDuration s + real j * frameDurationMs opts)
                (maxSilenceDurationMs opts)"
  shows "silenceDuration (fold (updateState opts False) tss s) =
           silenceDuration s + real (length tss) * frameDurationMs opts \<and>
         (if \<not> js_ge (silenceDuration s + real (length tss) * frameDurationMs opts)
                  (maxSilenceDurationMs opts)
          then speechActive (fold (updateState opts False) tss s) \<and>
               speechStart (fold (updateState opts False) tss s) = speechStart s
          else \<not> speechActive (fold (updateState opts False) tss s) \<and>
               speechStart (fold (updateState opts False) tss s) = None) \<and>
         (\<forall>m. maxSilenceDurationMs opts = Num m \<longrightarrow>
            (if silenceDuration s + real (length tss) * frameDurationMs opts < m
             then speechActive (fold (updateState opts False) tss s) \<and>
                  speechStart (fold (updateState opts False) tss s) = speechStart s
             else \<not> speechActive (fold (updateState opts False) tss s) \<and>
                  speechStart (fold (updateState opts False) tss s) = None))"
proof -
  let ?s' = "fold (updateState opts False) tss s"
  let ?x = "silenceDuration s + real (length tss) * frameDurationMs opts"
  from silent_frames [OF assms]
  have main: "silenceDuration ?s' = ?x \<and>
      (if \<not> js_ge ?x (maxSilenceDurationMs opts)
       then speechActive ?s' \<and> speechStart ?s' = speechStart s
       else \<not> speechActive ?s' \<and> speechStart ?s' = None)" .
  have "\<forall>m. maxSilenceDurationMs opts = Num m \<longrightarrow>
      (if ?x < m then speechActive ?s' \<and> speechStart ?s' = speechStart s
       else \<not> speechActive ?s' \<and> speechStart ?s' = None)"
  proof (intro allI impI)
    fix m assume "maxSilenceDurationMs opts = Num m"
    with main show "if ?x < m then speechActive ?s' \<and> speechStart ?s' = speechStart s
       else \<not> speechActive ?s' \<and> speechStart ?s' = None"
      by (simp add: not_le split: if_splits)
  qed
  with main show ?thesis by blast
qed

text \<open>
  With a maximum of 200 ms and frames of 96 ms: two silent frames (192 ms) leave the
  utterance open, the third (288 ms) closes it.
\<close>

theorem hysteresis_window_witness:
  "speechActive (fold (updateState (default_options\<lparr>maxSilenceDurationMs := Num 200\<rparr>) False)
                   [96, 192] talking_state) \<and>
   speechStart (fold (updateState (default_options\<lparr>maxSilenceDurationMs := Num 200\<rparr>) False)
                  [96, 192] talking_state) = Some 0 \<and>
   \<not> speechActive (fold (updateState (default_options\<lparr>maxSilenceDurationMs := Num 200\<rparr>) False)
                     [96, 192, 288] talking_state) \<and>
   speechStart (fold (updateState (default_options\<lparr>maxSilenceDurationMs := Num 200\<rparr>) False)
                  [96, 192, 288] talking_state) = None"
proof -
  let ?opts = "default_options\<lparr>maxSilenceDurationMs := Num 200\<rparr>"
  have fd: "frameDurationMs ?opts = 96"
    by (simp add: frameDurationMs_def default_options_def)
  have mx: "maxSilenceDurationMs ?opts = Num 200" by simp
  have act: "speechActive talking_state" "silenceDuration talking_state = 0"
    "speechStart talking_state = Some 0"
    by (simp_all add: talking_state_def)
  have two: "\<forall>j. 0 < j \<and> j < length [96, 192 :: real] \<longrightarrow>
      \<not> js_ge (silenceDuration talking_state + real j * frameDurationMs ?opts)
           (maxSilenceDurationMs ?opts)"
    by (simp add: fd act)
  have three: "\<forall>j. 0 < j \<and> j < length [96, 192, 288 :: real] \<longrightarrow>
      \<not> js_ge (silenceDuration talking_state + real j * frameDurationMs ?opts)
           (maxSilenceDurationMs ?opts)"
    by (simp add: fd act)
  from hysteresis_window [OF act(1) _ two] hysteresis_window [OF act(1) _ three]
  show ?thesis by (simp add: fd act)
qed

lemma updateState_inv:
  "speechActive s = (speechStart s \<noteq> None) \<Longrightarrow>
   speechActive (updateState opts b ts s) = (speechStart (updateState opts b ts s) \<noteq> None)"
  by (simp add: updateState_def Let_def)

lemma perform_inv:
  "speechActive (state v) = (speechStart (state v) \<noteq> None) \<Longrightarrow>
   speechActive (state (perform v a)) = (speechStart (state (perform v a)) \<noteq> None)"
  by (cases a) (simp_all add: updateState_inv reset_def initial_state_def)

text \<open>
  C9. Take an object whose activity state is the initial one, as the constructor
  leaves it, and apply any sequence of per-frame updates (any decision, any timestamp)
  and resets. In the state reached, \<open>speechActive\<close> is true exactly when \<open>speechStart\<close>
  is not null.
\<close>

theorem active_iff_start_recorded:
  "state v0 = initial_state \<Longrightarrow>
   speechActive (getState (foldl perform v0 acts)) =
     (speechStart (getState (foldl perform v0 acts)) \<noteq> None)"
proof (induction acts rule: rev_induct)
  case Nil
  then show ?case by (simp add: getState_def initial_state_def)
next
  case (snoc a acts)
  then show ?case by (simp add: getState_def perform_inv)
qed

theorem active_iff_start_recorded_witness:
  "state fresh_vad = initial_state \<and>
   speechActive (getState (foldl perform fresh_vad [Update True 0, Update False 96, Reset,
       Update True 288])) =
     (speechStart (getState (foldl perform fresh_vad [Update True 0, Update False 96, Reset,
       Update True 288])) \<noteq> None)"
proof -
  have init: "state fresh_vad = initial_state" by (simp add: fresh_vad_def)
  from init active_iff_start_recorded [OF init] show ?thesis by blast
qed

text \<open>The frame-level operations keep the same invariant.\<close>

lemma decide_inv:
  "speechActive s = (speechStart s \<noteq> None) \<Longrightarrow>
   speechActive (snd (decide opts s p)) = (speechStart (snd (decide opts s p)) \<noteq> None)"
  by (simp add: decide_def Let_def updateState_inv)

lemma processFrame_state:
  "state (snd (processFrame run v fr)) = state v \<or>
   (\<exists>p. state (snd (processFrame run v fr)) = snd (decide (options v) (state v) p))"
  by (auto simp: processFrame_def case_prod_beta split: sum.splits option.splits)

lemma processFrame_inv:
  assumes "speechActive (state v) = (speechStart (state v) \<noteq> None)"
  shows "speechActive (state (snd (processFrame run v fr))) =
           (speechStart (state (snd (processFrame run v fr))) \<noteq> None)"
  using processFrame_state [of run v fr] decide_inv [OF assms] assms by metis

lemma processFrame_pkg_state:
  "\<exists>p. state (snd (processFrame_pkg run v fr)) = state v \<or>
       state (snd (processFrame_pkg run v fr)) = snd (decide (options v) (state v) p)"
  by (auto simp: processFrame_pkg_def Let_def case_prod_beta split: sum.splits option.splits)

lemma processFrame_pkg_inv:
  assumes "speechActive (state v) = (speechStart (state v) \<noteq> None)"
  shows "speechActive (state (snd (processFrame_pkg run v fr))) =
           (speechStart (state (snd (processFrame_pkg run v fr))) \<noteq> None)"
  using processFrame_pkg_state [of run v fr] decide_inv [OF assms] assms by metis

text \<open>
  C8. Whatever object \<open>v\<close> the calls made so far have left behind, after \<open>reset()\<close> the
  state \<open>getState()\<close> returns is the one a freshly constructed object of either
  revision has: frame counter 0, inactive, no start timestamp, both durations 0. Both
  recurrent buffers keep their length and hold zeros only.
\<close>

theorem reset_restores_initial_state:
  "(new_SileroVAD o' = Inr (v0, ws) \<longrightarrow> getState (reset v) = getState v0) \<and>
   (new_SileroVAD_pkg o' = Inr (w0, ws') \<longrightarrow> getState (reset w) = getState w0) \<and>
   getState (reset v) =
     \<lparr>currentFrame = 0, speechActive = False, speechStart = None,
      silenceDuration = 0, speechDuration = 0\<rparr> \<and>
   h_lstm (reset v) = replicate (length (h_lstm v)) 0 \<and>
   c_lstm (reset v) = replicate (length (c_lstm v)) 0"
  by (auto simp: new_SileroVAD_def new_SileroVAD_pkg_def reset_def getState_def
        initial_state_def map_replicate_const split: sum.splits)

theorem reset_restores_initial_state_witness:
  "new_SileroVAD no_options = Inr (fresh_vad, []) \<and>
   getState (reset (ready_vad\<lparr>state := talking_state, h_lstm := replicate 256 1\<rparr>)) =
     getState fresh_vad \<and>
   h_lstm (reset (ready_vad\<lparr>state := talking_state, h_lstm := replicate 256 1\<rparr>)) =
     replicate 256 0"
proof -
  let ?v = "ready_vad\<lparr>state := talking_state, h_lstm := replicate 256 1\<rparr>"
  have built: "new_SileroVAD no_options = Inr (fresh_vad, [])"
    by (rule new_SileroVAD_no_options)
  have len: "length (h_lstm ?v) = 256" by simp
  from reset_restores_initial_state [of no_options fresh_vad "[]" ?v fresh_vad_pkg "[]" ready_vad_pkg]
  have "getState (reset ?v) = getState fresh_vad"
    and "h_lstm (reset ?v) = replicate (length (h_lstm ?v)) 0"
    using built by blast+
  with built len show ?thesis by simp
qed

section \<open>Processing one frame\<close>

lemma decide_result:
  "fst (decide opts s p) =
     \<lparr>probability = p, isSpeech = js_ge p (threshold opts), frame = currentFrame s,
      timestamp = real (currentFrame s) * (real (frameSize opts) / real (sampleRate opts)) * 1000\<rparr>"
  by (simp add: decide_def Let_def updateState_def)

lemma decide_state:
  "snd (decide opts s p) =
     (updateState opts (js_ge p (threshold opts))
        (real (currentFrame s) * (real (frameSize opts) / real (sampleRate opts)) * 1000) s)
     \<lparr>currentFrame := Suc (currentFrame s)\<rparr>"
  by (simp add: decide_def Let_def updateState_def)

lemma processFrame_options: "options (snd (processFrame run v fr)) = options v"
  by (auto simp: processFrame_def case_prod_beta split: sum.splits option.splits)

lemma processFrame_pkg_options: "options (snd (processFrame_pkg run v fr)) = options v"
  by (auto simp: processFrame_pkg_def Let_def case_prod_beta split: sum.splits option.splits)

text \<open>A call of the first revision whose \<open>try\<close> block throws: the error goes to the caller,
  the object is as before.\<close>

lemma processFrame_throws:
  assumes "session v" and "length fr = frameSize (options v)" and "inference_fails run v fr"
  shows "\<exists>msg. processFrame run v fr = (Inl (ProcessingError msg), v)"
  using assms
  by (auto simp: processFrame_def inference_fails_def typed_set_def
           split: sum.splits option.splits)

lemma processFrame_succeeds:
  assumes "session v" and "length fr = frameSize (options v)" and "\<not> inference_fails run v fr"
  shows "\<exists>r v1. processFrame run v fr = (Inr r, v1) \<and> session v1 \<and> options v1 = options v"
  using assms
  by (auto simp: processFrame_def inference_fails_def typed_set_def case_prod_beta
           split: sum.splits option.splits)

lemma processFrame_Inr:
  assumes "fst (processFrame run v fr) = Inr r"
  shows "\<exists>p stateN. run fr (h_lstm v) (sampleRate (options v)) = Inr (p, stateN) \<and>
           r = fst (decide (options v) (state v) p)"
  using assms
  by (auto simp: processFrame_def case_prod_beta split: sum.splits option.splits if_splits)

text \<open>A call of the second revision that does not get a value from the model: the
  energy value decides, and the flag is cleared if the model had been tried.\<close>

lemma processFrame_pkg_energy:
  assumes "length fr = frameSize (options v)"
    and "\<not> useOnnxModel v \<or> \<not> session v \<or> inference_fails run v fr"
  shows "processFrame_pkg run v fr =
           (Inr (fst (decide (options v) (state v) (energyBasedVAD fr))),
            v\<lparr>useOnnxModel := useOnnxModel v \<and> \<not> session v,
              state := snd (decide (options v) (state v) (energyBasedVAD fr))\<rparr>)"
  using assms
  by (auto simp: processFrame_pkg_def inference_fails_def typed_set_def Let_def case_prod_beta
           split: sum.splits option.splits)

lemma processFrame_pkg_succeeds:
  assumes "length fr = frameSize (options v)"
  shows "\<exists>r v1. processFrame_pkg run v fr = (Inr r, v1) \<and> options v1 = options v"
  using assms
  by (auto simp: processFrame_pkg_def Let_def case_prod_beta split: sum.splits option.splits)

lemma processFrame_pkg_Inr:
  assumes "fst (processFrame_pkg run v fr) = Inr r"
  shows "r = fst (decide (options v) (state v) (energyBasedVAD fr)) \<or>
         (\<exists>p stateN. run fr (h_lstm v) (sampleRate (options v)) = Inr (p, stateN) \<and>
            r = fst (decide (options v) (state v) p))"
  using assms
  by (auto simp: processFrame_pkg_def Let_def case_prod_beta
           split: sum.splits option.splits if_splits)

text \<open>
  C3. Whenever \<open>processFrame\<close> returns a decision, in the first revision its
  probability is the one the model produced for the frame, in the second revision it is
  that or the energy value of the frame, and in both the flag \<open>isSpeech\<close> is the outcome
  of the comparison \<open>probability >= threshold\<close>: for a threshold that is a number \<open>t\<close>,
  whichever, \<open>isSpeech\<close> equals \<open>probability \<ge> t\<close>, so a probability equal to the
  threshold is speech.
\<close>

theorem isSpeech_iff_threshold_reached:
  "(fst (processFrame run v fr) = Inr r \<longrightarrow>
      (\<exists>stateN. run fr (h_lstm v) (sampleRate (options v)) = Inr (probability r, stateN)) \<and>
      isSpeech r = js_ge (probability r) (threshold (options v)) \<and>
      (threshold (options v) = Num t \<longrightarrow> isSpeech r = (probability r \<ge> t))) \<and>
   (fst (processFrame_pkg run w fr) = Inr r' \<longrightarrow>
      (probability r' = energyBasedVAD fr \<or>
       (\<exists>stateN. run fr (h_lstm w) (sampleRate (options w)) = Inr (probability r', stateN))) \<and>
      isSpeech r' = js_ge (probability r') (threshold (options w)) \<and>
      (threshold (options w) = Num t' \<longrightarrow> isSpeech r' = (probability r' \<ge> t')))"
proof (intro conjI impI)
  assume a: "fst (processFrame run v fr) = Inr r"
  from processFrame_Inr [OF a] obtain p stateN where
    run: "run fr (h_lstm v) (sampleRate (options v)) = Inr (p, stateN)"
    and r: "r = fst (decide (options v) (state v) p)" by blast
  from r show js: "isSpeech r = js_ge (probability r) (threshold (options v))"
    by (simp add: decide_result)
  from r run show "\<exists>stateN. run fr (h_lstm v) (sampleRate (options v)) = Inr (probability r, stateN)"
    by (simp add: decide_result)
  assume "threshold (options v) = Num t"
  with js show "isSpeech r = (probability r \<ge> t)" by simp
next
  assume a: "fst (processFrame_pkg run w fr) = Inr r'"
  from processFrame_pkg_Inr [OF a]
  show "probability r' = energyBasedVAD fr \<or>
        (\<exists>stateN. run fr (h_lstm w) (sampleRate (options w)) = Inr (probability r', stateN))"
    by (auto simp: decide_result)
  from processFrame_pkg_Inr [OF a]
  show js: "isSpeech r' = js_ge (probability r') (threshold (options w))"
    by (auto simp: decide_result)
  assume "threshold (options w) = Num t'"
  with js show "isSpeech r' = (probability r' \<ge> t')" by simp
qed

text \<open>
  A model that answers 0.5 against the default threshold of 0.5: speech, in both
  revisions; 0.49 is not.
\<close>

lemma processFrame_ready_vad:
  "fst (processFrame (steady_backend p) ready_vad silent_frame) =
     Inr \<lparr>probability = p, isSpeech = (0.5 \<le> p), frame = 0, timestamp = 0\<rparr>"
  by (simp add: processFrame_def steady_backend_def ready_vad_def fresh_vad_def
        silent_frame_def default_options_def initial_state_def case_prod_beta decide_result)

lemma processFrame_ready_vad_pkg:
  "fst (processFrame_pkg (steady_backend p) ready_vad_pkg silent_frame) =
     Inr \<lparr>probability = p, isSpeech = (0.5 \<le> p), frame = 0, timestamp = 0\<rparr>"
  by (simp add: processFrame_pkg_def steady_backend_def ready_vad_pkg_def fresh_vad_pkg_def
        silent_frame_def default_options_def initial_state_def case_prod_beta decide_result)

theorem isSpeech_iff_threshold_reached_witness:
  "(\<exists>r. fst (processFrame (steady_backend 0.5) ready_vad silent_frame) = Inr r \<and>
        probability r = 0.5 \<and> threshold (options ready_vad) = Num 0.5 \<and> isSpeech r) \<and>
   (\<exists>r. fst (processFrame_pkg (steady_backend 0.49) ready_vad_pkg silent_frame) = Inr r \<and>
        probability r = 0.49 \<and> threshold (options ready_vad_pkg) = Num 0.5 \<and> \<not> isSpeech r)"
proof -
  let ?r = "\<lparr>probability = 0.5, isSpeech = True, frame = 0, timestamp = 0\<rparr>"
  let ?r' = "\<lparr>probability = 0.49, isSpeech = False, frame = 0, timestamp = 0\<rparr>"
  have a: "fst (processFrame (steady_backend 0.5) ready_vad silent_frame) = Inr ?r"
    using processFrame_ready_vad [of "0.5"] by simp
  have b: "fst (processFrame_pkg (steady_backend 0.49) ready_vad_pkg silent_frame) = Inr ?r'"
    using processFrame_ready_vad_pkg [of "0.49"] by simp
  have t: "threshold (options ready_vad) = Num 0.5" "threshold (options ready_vad_pkg) = Num 0.5"
    by (simp_all add: ready_vad_def fresh_vad_def ready_vad_pkg_def fresh_vad_pkg_def
          default_options_def)
  from isSpeech_iff_threshold_reached
    [of "steady_backend 0.5" ready_vad silent_frame ?r "0.5" ready_vad_pkg ?r "0.5"]
  have "isSpeech ?r = (probability ?r \<ge> 0.5)"
    using a t by blast
  moreover
  from isSpeech_iff_threshold_reached
    [of "steady_backend 0.49" ready_vad silent_frame ?r' "0.5" ready_vad_pkg ?r' "0.5"]
  have "isSpeech ?r' = (probability ?r' \<ge> 0.5)"
    using b t by blast
  ultimately show ?thesis using a b t by simp
qed

section \<open>Failure of the backend\<close>

lemma processFrames_pkg_energy:
  assumes "\<not> useOnnxModel v"
    and "\<forall>c\<in>set calls. length (snd c) = frameSize (options v)"
  shows "\<exists>rs v2. processFrames_pkg calls v = (map Inr rs, v2) \<and>
           map probability rs = map (\<lambda>c. energyBasedVAD (snd c)) calls \<and>
           map isSpeech rs = map (\<lambda>c. js_ge (energyBasedVAD (snd c)) (threshold (options v))) calls \<and>
           \<not> useOnnxModel v2 \<and> options v2 = options v"
  using assms
proof (induction calls arbitrary: v)
  case Nil
  then show ?case by simp
next
  case (Cons c calls)
  obtain run fr where c: "c = (run, fr)" by (cases c)
  let ?p = "energyBasedVAD fr"
  let ?v1 = "v\<lparr>useOnnxModel := useOnnxModel v \<and> \<not> session v,
               state := snd (decide (options v) (state v) ?p)\<rparr>"
  have len: "length fr = frameSize (options v)" using Cons.prems(2) c by simp
  have step: "processFrame_pkg run v fr = (Inr (fst (decide (options v) (state v) ?p)), ?v1)"
    using processFrame_pkg_energy [OF len, of run] Cons.prems(1) by simp
  have off: "\<not> useOnnxModel ?v1" using Cons.prems(1) by simp
  have rest: "\<forall>c\<in>set calls. length (snd c) = frameSize (options ?v1)"
    using Cons.prems(2) by simp
  from Cons.IH [OF off rest] obtain rs v2 where
    ih: "processFrames_pkg calls ?v1 = (map Inr rs, v2)"
      "map probability rs = map (\<lambda>c. energyBasedVAD (snd c)) calls"
      "map isSpeech rs = map (\<lambda>c. js_ge (energyBasedVAD (snd c)) (threshold (options ?v1))) calls"
      "\<not> useOnnxModel v2" "options v2 = options ?v1"
    by blast
  let ?rs = "fst (decide (options v) (state v) ?p) # rs"
  have "processFrames_pkg (c # calls) v = (map Inr ?rs, v2)"
    using step ih(1) c by simp
  moreover have "map probability ?rs = map (\<lambda>c. energyBasedVAD (snd c)) (c # calls)"
    using ih(2) c by (simp add: decide_result)
  moreover have "map isSpeech ?rs =
      map (\<lambda>c. js_ge (energyBasedVAD (snd c)) (threshold (options v))) (c # calls)"
    using ih(3) c by (simp add: decide_result)
  moreover have "\<not> useOnnxModel v2 \<and> options v2 = options v"
    using ih(4,5) by simp
  ultimately show ?case by blast
qed

text \<open>
  C1, as the code has it. In the revision with the flag \<open>useOnnxModel\<close>: on a frame
  of the configured size, when the model is in use and its \<open>try\<close> block throws,
  \<open>processFrame\<close> throws nothing, returns the decision computed from the energy value of
  that frame and clears the flag; every later call with a frame of the configured size,
  whatever the backend would do then, returns a decision whose probability is the
  energy value of its frame and whose flag \<open>isSpeech\<close> compares that value with the
  threshold, and the flag \<open>useOnnxModel\<close> stays cleared. In the revision of
  \<open>src/silero-vad.ts\<close> there is no fallback: an initialised object on which the \<open>try\<close>
  block throws hands a processing error to the caller and is left as it was.
\<close>

theorem fallback_after_inference_failure:
  "(useOnnxModel w \<and> session w \<and> inference_fails run w fr \<and>
    length fr = frameSize (options w) \<and>
    (\<forall>c\<in>set calls. length (snd c) = frameSize (options w)) \<longrightarrow>
      (\<exists>r w1 rs w2.
         processFrame_pkg run w fr = (Inr r, w1) \<and>
         probability r = energyBasedVAD fr \<and>
         isSpeech r = js_ge (energyBasedVAD fr) (threshold (options w)) \<and>
         \<not> useOnnxModel w1 \<and>
         processFrames_pkg calls w1 = (map Inr rs, w2) \<and>
         map probability rs = map (\<lambda>c. energyBasedVAD (snd c)) calls \<and>
         map isSpeech rs = map (\<lambda>c. js_ge (energyBasedVAD (snd c)) (threshold (options w))) calls \<and>
         \<not> useOnnxModel w2)) \<and>
   (session v \<and> inference_fails run' v fr' \<and> length fr' = frameSize (options v) \<longrightarrow>
      (\<exists>msg. processFrame run' v fr' = (Inl (ProcessingError msg), v)))"
proof (intro conjI impI)
  assume a: "useOnnxModel w \<and> session w \<and> inference_fails run w fr \<and>
    length fr = frameSize (options w) \<and>
    (\<forall>c\<in>set calls. length (snd c) = frameSize (options w))"
  let ?p = "energyBasedVAD fr"
  let ?w1 = "w\<lparr>useOnnxModel := useOnnxModel w \<and> \<not> session w,
               state := snd (decide (options w) (state w) ?p)\<rparr>"
  have step: "processFrame_pkg run w fr = (Inr (fst (decide (options w) (state w) ?p)), ?w1)"
    using processFrame_pkg_energy [of fr w run] a by simp
  have off: "\<not> useOnnxModel ?w1" using a by simp
  have rest: "\<forall>c\<in>set calls. length (snd c) = frameSize (options ?w1)" using a by simp
  from processFrames_pkg_energy [OF off rest] obtain rs w2 where
    "processFrames_pkg calls ?w1 = (map Inr rs, w2)"
    "map probability rs = map (\<lambda>c. energyBasedVAD (snd c)) calls"
    "map isSpeech rs = map (\<lambda>c. js_ge (energyBasedVAD (snd c)) (threshold (options ?w1))) calls"
    "\<not> useOnnxModel w2"
    by blast
  with step off show "\<exists>r w1 rs w2.
         processFrame_pkg run w fr = (Inr r, w1) \<and>
         probability r = energyBasedVAD fr \<and>
         isSpeech r = js_ge (energyBasedVAD fr) (threshold (options w)) \<and>
         \<not> useOnnxModel w1 \<and>
         processFrames_pkg calls w1 = (map Inr rs, w2) \<and>
         map probability rs = map (\<lambda>c. energyBasedVAD (snd c)) calls \<and>
         map isSpeech rs = map (\<lambda>c. js_ge (energyBasedVAD (snd c)) (threshold (options w))) calls \<and>
         \<not> useOnnxModel w2"
    by (simp add: decide_result)
next
  assume "session v \<and> inference_fails run' v fr' \<and> length fr' = frameSize (options v)"
  then show "\<exists>msg. processFrame run' v fr' = (Inl (ProcessingError msg), v)"
    using processFrame_throws [of v fr' run'] by simp
qed

lemma ready_vad_facts:
  "session ready_vad" "frameSize (options ready_vad) = 1536"
  "session ready_vad_pkg" "useOnnxModel ready_vad_pkg"
  "frameSize (options ready_vad_pkg) = 1536" "length silent_frame = 1536"
  by (simp_all add: ready_vad_def fresh_vad_def ready_vad_pkg_def fresh_vad_pkg_def
        default_options_def silent_frame_def)

lemma failing_backend_fails: "inference_fails failing_backend v fr"
  by (simp add: inference_fails_def failing_backend_def)

text \<open>
  A backend that fails on the first frame: the second revision answers that frame and
  the next two from the energy value, although the backend would answer 0.9 again; the
  first revision throws.
\<close>

theorem fallback_after_inference_failure_witness:
  "(\<exists>r w1 rs w2.
      processFrame_pkg failing_backend ready_vad_pkg silent_frame = (Inr r, w1) \<and>
      probability r = energyBasedVAD silent_frame \<and> \<not> useOnnxModel w1 \<and>
      processFrames_pkg [(steady_backend 0.9, silent_frame), (steady_backend 0.9, silent_frame)]
        w1 = (map Inr rs, w2) \<and>
      map probability rs = [energyBasedVAD silent_frame, energyBasedVAD silent_frame] \<and>
      \<not> useOnnxModel w2) \<and>
   (\<exists>msg. processFrame failing_backend ready_vad silent_frame =
      (Inl (ProcessingError msg), ready_vad))"
proof -
  let ?calls = "[(steady_backend 0.9, silent_frame), (steady_backend 0.9, silent_frame)]"
  have first: "useOnnxModel ready_vad_pkg \<and> session ready_vad_pkg \<and>
      inference_fails failing_backend ready_vad_pkg silent_frame \<and>
      length silent_frame = frameSize (options ready_vad_pkg) \<and>
      (\<forall>c\<in>set ?calls. length (snd c) = frameSize (options ready_vad_pkg))"
    by (simp add: ready_vad_facts failing_backend_fails)
  have strict: "session ready_vad \<and> inference_fails failing_backend ready_vad silent_frame \<and>
      length silent_frame = frameSize (options ready_vad)"
    by (simp add: ready_vad_facts failing_backend_fails)
  from fallback_after_inference_failure
    [of ready_vad_pkg failing_backend silent_frame ?calls ready_vad failing_backend silent_frame]
    first strict
  obtain r w1 rs w2 msg where
    "processFrame_pkg failing_backend ready_vad_pkg silent_frame = (Inr r, w1)"
    "probability r = energyBasedVAD silent_frame" "\<not> useOnnxModel w1"
    "processFrames_pkg ?calls w1 = (map Inr rs, w2)"
    "map probability rs = map (\<lambda>c. energyBasedVAD (snd c)) ?calls"
    "\<not> useOnnxModel w2"
    "processFrame failing_backend ready_vad silent_frame = (Inl (ProcessingError msg), ready_vad)"
    by blast
  moreover have "map (\<lambda>c. energyBasedVAD (snd c)) ?calls =
      [energyBasedVAD silent_frame, energyBasedVAD silent_frame]"
    by simp
  ultimately show ?thesis by metis
qed

text \<open>
  The first revision with a backend that fails at every call: the second call throws
  like the first.
\<close>

theorem every_failure_is_thrown:
  "fst (processFrames [(failing_backend, silent_frame), (failing_backend, silent_frame)]
          ready_vad) =
     [Inl (ProcessingError ''inference failed''), Inl (ProcessingError ''inference failed'')]"
  by (simp add: processFrame_def failing_backend_def ready_vad_facts case_prod_beta)

section \<open>Segment extraction\<close>

lemma extract_step_speech:
  "isSpeech r \<Longrightarrow> extract_step opts vs audio (a, fs, segs) r =
     Inr (case a of None \<Rightarrow> Some (timestamp r) | Some t \<Rightarrow> Some t, fs @ [frame r], segs)"
  by (simp add: extract_step_def)

lemma extract_step_closed_silence:
  "\<not> isSpeech r \<Longrightarrow> extract_step opts vs audio (None, fs, segs) r = Inr (None, fs, segs)"
  by (simp add: extract_step_def)



text \<open>Speech decisions only extend the open run; they emit nothing.\<close>

lemma extract_loop_all_speech:
  "\<forall>r\<in>set run. isSpeech r \<Longrightarrow> extract_loop opts vs audio run (a, fs, segs) = Inr segs"
  by (induction run arbitrary: a fs) (simp_all add: extract_step_speech)

lemma extract_loop_trailing:
  "\<forall>r\<in>set run. isSpeech r \<Longrightarrow>
     extract_loop opts vs audio (pre @ run) st = extract_loop opts vs audio pre st"
proof (induction pre arbitrary: st)
  case Nil
  obtain a fs segs where "st = (a, fs, segs)" by (cases st)
  with Nil show ?case by (simp add: extract_loop_all_speech)
next
  case (Cons r pre)
  then show ?case by (simp split: sum.splits)
qed


















text \<open>
  C5. When the decision list ends with a run of speech decisions, the result of
  \<open>extractSpeechSegments\<close> is what the scan has collected before that run: however long
  the run is, it adds no segment. (The confidence indices of earlier segments are still
  read from the whole list.)
\<close>

theorem trailing_run_not_emitted:
  "\<forall>r\<in>set run. isSpeech r \<Longrightarrow>
   extractSpeechSegments opts (pre @ run) audio =
     extract_loop opts (pre @ run) audio pre (None, [], [])"
  by (simp add: extractSpeechSegments_def extract_loop_trailing)

text \<open>
  Four trailing speech frames (384 ms against a minimum of 250 ms) behind a closed
  segment: only the closed segment is returned; and four speech frames alone give no
  segment.
\<close>

theorem trailing_run_not_emitted_witness:
  "extractSpeechSegments default_options (early_decisions @ trailing_decisions) [] =
     Inr [\<lparr>start = 0, end' = 288, audioData = [], confidence = 0.8\<rparr>] \<and>
   extractSpeechSegments default_options trailing_decisions [] = Inr []"
proof -
  have sp: "\<forall>r\<in>set trailing_decisions. isSpeech r"
    by (simp add: trailing_decisions_def decision_def)
  have "extractSpeechSegments default_options (early_decisions @ trailing_decisions) [] =
          extract_loop default_options (early_decisions @ trailing_decisions) []
            early_decisions (None, [], [])"
    using trailing_run_not_emitted [OF sp] .
  moreover have "extractSpeechSegments default_options ([] @ trailing_decisions) [] =
          extract_loop default_options ([] @ trailing_decisions) [] [] (None, [], [])"
    using trailing_run_not_emitted [OF sp] .
  moreover have "extract_loop default_options (early_decisions @ trailing_decisions) []
            early_decisions (None, [], []) =
          Inr [\<lparr>start = 0, end' = 288, audioData = [], confidence = 0.8\<rparr>]"
    by (simp add: early_decisions_def trailing_decisions_def decision_def extract_step_def
          default_options_def js_slice_def Let_def)
  ultimately show ?thesis by simp
qed

text \<open>
  Decisions are numbered consecutively from the frame counter: a session with a backend
  that answers the probabilities \<open>ps\<close> one after the other.
\<close>

lemma processFrame_steady:
  assumes "session v" and "length fr = frameSize (options v)"
  shows "processFrame (steady_backend p) v fr =
           (Inr (fst (decide (options v) (state v) p)),
            v\<lparr>state := snd (decide (options v) (state v) p)\<rparr>)"
  using assms by (simp add: processFrame_def steady_backend_def case_prod_beta)

lemma processFrames_steady:
  assumes "session v" and "length fr = frameSize (options v)"
  shows "fst (processFrames (map (\<lambda>p. (steady_backend p, fr)) ps) v) =
           map (\<lambda>(i, p). Inr \<lparr>probability = p, isSpeech = js_ge p (threshold (options v)),
                  frame = i,
                  timestamp = real i *
                    (real (frameSize (options v)) / real (sampleRate (options v))) * 1000\<rparr>)
             (enumerate (currentFrame (state v)) ps)"
  using assms
proof (induction ps arbitrary: v)
  case Nil
  then show ?case by simp
next
  case (Cons p ps)
  let ?v1 = "v\<lparr>state := snd (decide (options v) (state v) p)\<rparr>"
  have step: "processFrame (steady_backend p) v fr =
      (Inr (fst (decide (options v) (state v) p)), ?v1)"
    using Cons.prems by (rule processFrame_steady)
  have v1: "session ?v1" "length fr = frameSize (options ?v1)"
    "currentFrame (state ?v1) = Suc (currentFrame (state v))" "options ?v1 = options v"
    using Cons.prems by (simp_all add: decide_state)
  from Cons.IH [OF v1(1,2)] v1(3,4)
  have "fst (processFrames (map (\<lambda>p. (steady_backend p, fr)) ps) ?v1) =
      map (\<lambda>(i, p). Inr \<lparr>probability = p, isSpeech = js_ge p (threshold (options v)),
                  frame = i,
                  timestamp = real i *
                    (real (frameSize (options v)) / real (sampleRate (options v))) * 1000\<rparr>)
        (enumerate (Suc (currentFrame (state v))) ps)"
    by simp
  with step show ?case
    by (simp add: case_prod_beta decide_result)
qed

text \<open>
  Decisions numbered from 4 are what a session returns that has processed four
  frames before and was not reset.
\<close>

lemma late_decisions_from_session:
  "drop 4 (fst (processFrames
      (map (\<lambda>p. (steady_backend p, silent_frame)) [0.1, 0.1, 0.1, 0.1, 0.9, 0.8, 0.7, 0.1])
      ready_vad)) = map Inr late_decisions"
proof -
  have "session ready_vad" "length silent_frame = frameSize (options ready_vad)"
    by (simp_all add: ready_vad_facts)
  from processFrames_steady [OF this, of "[0.1, 0.1, 0.1, 0.1, 0.9, 0.8, 0.7, 0.1]"]
  show ?thesis
    by (simp add: ready_vad_def fresh_vad_def default_options_def initial_state_def
          late_decisions_def decision_def)
qed




section \<open>Whole buffers: the two tail policies\<close>

declare zero_padded_chunks.simps [simp del]

declare whole_frames.simps [simp del]

text \<open>The two branches of the loop body submit the chunk filled up with zeros.\<close>

lemma pad_branch:
  "(if length chunk < fs then f (chunk @ replicate (fs - length chunk) 0) else f chunk) =
     f (chunk @ replicate (fs - length chunk) 0)"
  by simp

lemma processAudio_loop_refines:
  "0 < fs \<Longrightarrow>
   processAudio_loop runs audio fs i k results v =
     Some (process_chunks (\<lambda>k. processFrame (runs k)) k
             (zero_padded_chunks fs (drop i audio)) results v)"
proof (induction "length audio - i" arbitrary: i k results v rule: less_induct)
  case less
  show ?case
  proof (cases "i < length audio")
    case False
    then show ?thesis
      by (subst processAudio_loop.simps) (simp add: zero_padded_chunks.simps)
  next
    case True
    let ?chunk = "take fs (drop i audio)"
    let ?padded = "?chunk @ replicate (fs - length ?chunk) 0"
    have chunks: "zero_padded_chunks fs (drop i audio) =
                    ?padded # zero_padded_chunks fs (drop (i + fs) audio)"
      using True less.prems
      by (subst zero_padded_chunks.simps) (simp add: add.commute)
    have step: "processAudio_loop runs audio fs i k results v =
        (case processFrame (runs k) v ?padded of
           (Inl e, v1) \<Rightarrow> Some (Inl e, v1)
         | (Inr result, v1) \<Rightarrow>
             processAudio_loop runs audio fs (i + fs) (Suc k) (results @ [result]) v1)"
      by (subst processAudio_loop.simps) (simp only: True if_True Let_def pad_branch)
    obtain r v1 where pf: "processFrame (runs k) v ?padded = (r, v1)"
      by (cases "processFrame (runs k) v ?padded")
    show ?thesis
    proof (cases r)
      case (Inl e)
      with pf show ?thesis by (simp add: step chunks)
    next
      case (Inr res)
      have "length audio - (i + fs) < length audio - i"
        using True less.prems by simp
      from less.hyps [OF this less.prems, of "Suc k" "results @ [res]" v1]
      have "processAudio_loop runs audio fs (i + fs) (Suc k) (results @ [res]) v1 =
              Some (process_chunks (\<lambda>k. processFrame (runs k)) (Suc k)
                      (zero_padded_chunks fs (drop (i + fs) audio)) (results @ [res]) v1)" .
      with Inr pf show ?thesis by (simp add: step chunks)
    qed
  qed
qed

lemma processAudio_pkg_loop_refines:
  "0 < fs \<Longrightarrow>
   processAudio_pkg_loop runs audio fs i k results v =
     Some (process_chunks (\<lambda>k. processFrame_pkg (runs k)) k
             (zero_padded_chunks fs (drop i audio)) results v)"
proof (induction "length audio - i" arbitrary: i k results v rule: less_induct)
  case less
  show ?case
  proof (cases "i < length audio")
    case False
    then show ?thesis
      by (subst processAudio_pkg_loop.simps) (simp add: zero_padded_chunks.simps)
  next
    case True
    let ?chunk = "take fs (drop i audio)"
    let ?padded = "?chunk @ replicate (fs - length ?chunk) 0"
    have chunks: "zero_padded_chunks fs (drop i audio) =
                    ?padded # zero_padded_chunks fs (drop (i + fs) audio)"
      using True less.prems
      by (subst zero_padded_chunks.simps) (simp add: add.commute)
    have step: "processAudio_pkg_loop runs audio fs i k results v =
        (case processFrame_pkg (runs k) v ?padded of
           (Inl e, v1) \<Rightarrow> Some (Inl e, v1)
         | (Inr result, v1) \<Rightarrow>
             processAudio_pkg_loop runs audio fs (i + fs) (Suc k) (results @ [result]) v1)"
      by (subst processAudio_pkg_loop.simps) (simp only: True if_True Let_def pad_branch)
    obtain r v1 where pf: "processFrame_pkg (runs k) v ?padded = (r, v1)"
      by (cases "processFrame_pkg (runs k) v ?padded")
    show ?thesis
    proof (cases r)
      case (Inl e)
      with pf show ?thesis by (simp add: step chunks)
    next
      case (Inr res)
      have "length audio - (i + fs) < length audio - i"
        using True less.prems by simp
      from less.hyps [OF this less.prems, of "Suc k" "results @ [res]" v1]
      have "processAudio_pkg_loop runs audio fs (i + fs) (Suc k) (results @ [res]) v1 =
              Some (process_chunks (\<lambda>k. processFrame_pkg (runs k)) (Suc k)
                      (zero_padded_chunks fs (drop (i + fs) audio)) (results @ [res]) v1)" .
      with Inr pf show ?thesis by (simp add: step chunks)
    qed
  qed
qed

lemma zero_padded_chunks_length_each:
  "c \<in> set (zero_padded_chunks fs audio) \<Longrightarrow> length c = fs"
proof (induction fs audio rule: zero_padded_chunks.induct)
  case (1 fs audio)
  show ?case
  proof (cases "fs = 0 \<or> audio = []")
    case True
    with "1.prems" show ?thesis by (simp add: zero_padded_chunks.simps)
  next
    case False
    with "1.prems" have "c = take fs audio @ replicate (fs - length (take fs audio)) 0
        \<or> c \<in> set (zero_padded_chunks fs (drop fs audio))"
      by (subst (asm) zero_padded_chunks.simps) simp
    then show ?thesis
    proof
      assume "c = take fs audio @ replicate (fs - length (take fs audio)) 0"
      then show ?thesis by simp
    next
      assume "c \<in> set (zero_padded_chunks fs (drop fs audio))"
      with "1.IH" False show ?thesis by simp
    qed
  qed
qed

lemma ceiling_chunk_step:
  assumes "0 < fs" and "0 < n"
  shows "nat \<lceil>real n / real fs\<rceil> = Suc (nat \<lceil>real (n - fs) / real fs\<rceil>)"
proof (cases "fs \<le> n")
  case True
  then have "real n / real fs = real (n - fs) / real fs + 1"
    using assms(1) by (simp add: field_simps)
  moreover have "0 \<le> \<lceil>real (n - fs) / real fs\<rceil>"
  proof -
    have "(0::real) \<le> real (n - fs) / real fs" by simp
    then have "\<lceil>0::real\<rceil> \<le> \<lceil>real (n - fs) / real fs\<rceil>" by (rule ceiling_mono)
    then show ?thesis by simp
  qed
  ultimately show ?thesis by (simp add: nat_add_distrib)
next
  case False
  then have "0 < real n / real fs" "real n / real fs \<le> 1"
    using assms by simp_all
  then have "\<lceil>real n / real fs\<rceil> = 1"
    by (simp add: ceiling_eq_iff)
  with False show ?thesis by simp
qed

lemma zero_padded_chunks_count:
  "0 < fs \<Longrightarrow> length (zero_padded_chunks fs audio) = nat \<lceil>real (length audio) / real fs\<rceil>"
proof (induction fs audio rule: zero_padded_chunks.induct)
  case (1 fs audio)
  show ?case
  proof (cases "audio = []")
    case True
    then show ?thesis by (simp add: zero_padded_chunks.simps)
  next
    case False
    then have "length (zero_padded_chunks fs audio) =
                 Suc (length (zero_padded_chunks fs (drop fs audio)))"
      using "1.prems" by (subst zero_padded_chunks.simps) simp
    also have "\<dots> = Suc (nat \<lceil>real (length audio - fs) / real fs\<rceil>)"
      using "1.IH" "1.prems" False by simp
    also have "\<dots> = nat \<lceil>real (length audio) / real fs\<rceil>"
      using ceiling_chunk_step[of fs "length audio"] "1.prems" False by simp
    finally show ?thesis .
  qed
qed

lemma process_chunks_length:
  "process_chunks pf k chunks results v = (Inr rs, v1) \<Longrightarrow>
     length rs = length results + length chunks"
proof (induction chunks arbitrary: k results v)
  case Nil
  then show ?case by simp
next
  case (Cons c chunks)
  obtain r v2 where pf: "pf k v c = (r, v2)" by (cases "pf k v c")
  show ?case
  proof (cases r)
    case (Inl e)
    with Cons.prems pf show ?thesis by simp
  next
    case (Inr res)
    with Cons.prems pf have "process_chunks pf (Suc k) chunks (results @ [res]) v2 = (Inr rs, v1)"
      by simp
    from Cons.IH[OF this] show ?thesis by simp
  qed
qed

lemma process_chunks_succeeds:
  assumes "\<And>k v c. P v \<Longrightarrow> c \<in> set chunks \<Longrightarrow> \<exists>r v1. pf k v c = (Inr r, v1) \<and> P v1"
    and "P v"
  shows "\<exists>rs v1. process_chunks pf k chunks results v = (Inr rs, v1)"
  using assms
proof (induction chunks arbitrary: k results v)
  case Nil
  then show ?case by simp
next
  case (Cons c chunks)
  from Cons.prems(1)[OF Cons.prems(2), of c k]
  obtain r v2 where pf: "pf k v c = (Inr r, v2)" and P2: "P v2" by auto
  have "\<exists>rs v1. process_chunks pf (Suc k) chunks (results @ [r]) v2 = (Inr rs, v1)"
  proof (rule Cons.IH[OF _ P2])
    fix k' v' c'
    assume "P v'" "c' \<in> set chunks"
    then show "\<exists>r v1. pf k' v' c' = (Inr r, v1) \<and> P v1"
      using Cons.prems(1)[of v' c' k'] by simp
  qed
  with pf show ?case by simp
qed

lemma whole_frames_length_each:
  "f \<in> set (whole_frames fs audio) \<Longrightarrow> length f = fs"
proof (induction fs audio rule: whole_frames.induct)
  case (1 fs audio)
  show ?case
  proof (cases "fs = 0 \<or> length audio < fs")
    case True
    with "1.prems" show ?thesis by (simp add: whole_frames.simps)
  next
    case False
    with "1.prems" have "f = take fs audio \<or> f \<in> set (whole_frames fs (drop fs audio))"
      by (subst (asm) whole_frames.simps) simp
    then show ?thesis
    proof
      assume "f = take fs audio"
      with False show ?thesis by simp
    next
      assume "f \<in> set (whole_frames fs (drop fs audio))"
      with "1.IH" False show ?thesis by simp
    qed
  qed
qed

lemma whole_frames_count:
  "0 < fs \<Longrightarrow> length (whole_frames fs audio) = length audio div fs"
proof (induction fs audio rule: whole_frames.induct)
  case (1 fs audio)
  show ?case
  proof (cases "length audio < fs")
    case True
    then show ?thesis by (simp add: whole_frames.simps)
  next
    case False
    then have "length (whole_frames fs audio) = Suc (length (whole_frames fs (drop fs audio)))"
      using "1.prems" by (subst whole_frames.simps) simp
    also have "\<dots> = Suc ((length audio - fs) div fs)"
      using "1.IH" "1.prems" False by simp
    also have "\<dots> = length audio div fs"
      using False "1.prems" by (simp add: le_div_geq)
    finally show ?thesis .
  qed
qed

lemma createFrames_loop_refines:
  "0 < fs \<Longrightarrow>
   createFrames_loop audio fs fs i frames = Some (frames @ whole_frames fs (drop i audio))"
proof (induction "length audio - i" arbitrary: i frames rule: less_induct)
  case less
  show ?case
  proof (cases "i + fs \<le> length audio")
    case False
    have "length audio - i < fs" using False less.prems by arith
    then have "length (drop i audio) < fs" by simp
    then have "whole_frames fs (drop i audio) = []"
      by (subst whole_frames.simps) simp
    with False show ?thesis
      by (subst createFrames_loop.simps) simp
  next
    case True
    have step: "whole_frames fs (drop i audio) =
                  take fs (drop i audio) # whole_frames fs (drop (i + fs) audio)"
      using True less.prems by (subst whole_frames.simps) (simp add: add.commute)
    have "length audio - (i + fs) < length audio - i"
      using True less.prems by simp
    from less.hyps[OF this less.prems, of "frames @ [take fs (drop i audio)]"]
    have "createFrames_loop audio fs fs (i + fs) (frames @ [take fs (drop i audio)]) =
            Some (frames @ whole_frames fs (drop i audio))"
      by (simp add: step)
    with True show ?thesis
      by (subst createFrames_loop.simps) simp
  qed
qed


lemma whole_frames_concat:
  "0 < fs \<Longrightarrow> concat (whole_frames fs audio) = take (length audio div fs * fs) audio"
proof (induction fs audio rule: whole_frames.induct)
  case (1 fs audio)
  show ?case
  proof (cases "length audio < fs")
    case True
    then show ?thesis by (simp add: whole_frames.simps)
  next
    case False
    then have "concat (whole_frames fs audio) =
        take fs audio @ concat (whole_frames fs (drop fs audio))"
      using "1.prems" by (subst whole_frames.simps) simp
    also have "\<dots> = take fs audio @ take ((length audio - fs) div fs * fs) (drop fs audio)"
      using "1.IH" "1.prems" False by simp
    also have "\<dots> = take (fs + (length audio - fs) div fs * fs) audio"
      by (simp add: take_add)
    also have "fs + (length audio - fs) div fs * fs = length audio div fs * fs"
      using False "1.prems" by (simp add: le_div_geq)
    finally show ?thesis .
  qed
qed

lemma ceiling_covers:
  assumes "0 < fs"
  shows "n \<le> nat \<lceil>real n / real fs\<rceil> * fs"
proof -
  let ?c = "\<lceil>real n / real fs\<rceil>"
  have nonneg: "0 \<le> ?c"
  proof -
    have "(0::real) \<le> real n / real fs" by simp
    then have "\<lceil>0::real\<rceil> \<le> ?c" by (rule ceiling_mono)
    then show ?thesis by simp
  qed
  have pos: "0 < real fs" using assms by simp
  have "real n / real fs \<le> of_int ?c" by (rule le_of_int_ceiling)
  then have "real n \<le> of_int ?c * real fs"
    by (simp only: pos_divide_le_eq [OF pos])
  then have "real_of_int (int n) \<le> real_of_int (?c * int fs)" by simp
  then have "int n \<le> ?c * int fs" by (simp only: of_int_le_iff)
  then have "n \<le> nat (?c * int fs)" by simp
  also have "nat (?c * int fs) = nat ?c * fs"
    using nonneg by (simp add: nat_mult_distrib)
  finally show ?thesis .
qed

lemma zero_padded_chunks_concat:
  "0 < fs \<Longrightarrow>
   concat (zero_padded_chunks fs audio) =
     audio @ replicate (length (zero_padded_chunks fs audio) * fs - length audio) 0"
proof (induction fs audio rule: zero_padded_chunks.induct)
  case (1 fs audio)
  show ?case
  proof (cases "audio = []")
    case True
    then show ?thesis by (simp add: zero_padded_chunks.simps)
  next
    case False
    let ?rest = "zero_padded_chunks fs (drop fs audio)"
    have unfold: "zero_padded_chunks fs audio =
        (take fs audio @ replicate (fs - length (take fs audio)) 0) # ?rest"
      using False "1.prems" by (subst zero_padded_chunks.simps) simp
    have ih: "concat ?rest =
        drop fs audio @ replicate (length ?rest * fs - length (drop fs audio)) 0"
      using "1.IH" False "1.prems" by simp
    show ?thesis
    proof (cases "fs \<le> length audio")
      case True
      have cover: "length audio - fs \<le> length ?rest * fs"
        using ceiling_covers [OF "1.prems", of "length audio - fs"]
          zero_padded_chunks_count [OF "1.prems", of "drop fs audio"]
        by simp
      have "concat (zero_padded_chunks fs audio) = take fs audio @ concat ?rest"
        using True by (simp add: unfold)
      also have "\<dots> = audio @ replicate (length ?rest * fs - (length audio - fs)) 0"
        by (simp add: ih)
      also have "length ?rest * fs - (length audio - fs) =
          length (zero_padded_chunks fs audio) * fs - length audio"
        using True cover by (simp add: unfold)
      finally show ?thesis .
    next
      case short: False
      then have "drop fs audio = []" by simp
      then have "?rest = []" by (simp add: zero_padded_chunks.simps)
      with short show ?thesis by (simp add: unfold)
    qed
  qed
qed

text \<open>
  C6. For a positive frame size \<open>fs\<close>. \<open>processAudio\<close>, in either revision, returns what
  submitting the zero-padded chunks of the buffer one after the other returns; these
  chunks number \<open>ceil(n / fs)\<close>, each has \<open>fs\<close> samples, and together they are the
  buffer followed by zeros. So the second revision returns \<open>ceil(n / fs)\<close> decisions, and
  the first one does when the session is initialised and no inference fails.
  \<open>createFrames\<close> with the default hop returns the whole frames of the buffer: they
  number \<open>floor(n / fs)\<close>, each has \<open>fs\<close> samples, and a shorter rest is left out.
\<close>

theorem tail_policies:
  assumes "0 < fs"
  shows
   "(frameSize (options v) = fs \<longrightarrow>
       processAudio runs v audio =
         Some (process_chunks (\<lambda>k. processFrame (runs k)) 0 (zero_padded_chunks fs audio) [] v) \<and>
       (session v \<and> (\<forall>k (u::SileroVAD) fr. \<not> inference_fails (runs k) u fr) \<longrightarrow>
          (\<exists>rs v1. processAudio runs v audio = Some (Inr rs, v1) \<and>
             length rs = nat \<lceil>real (length audio) / real fs\<rceil>))) \<and>
    (frameSize (options w) = fs \<longrightarrow>
       processAudio_pkg runs w audio =
         Some (process_chunks (\<lambda>k. processFrame_pkg (runs k)) 0
                 (zero_padded_chunks fs audio) [] w) \<and>
       (\<exists>rs w1. processAudio_pkg runs w audio = Some (Inr rs, w1) \<and>
          length rs = nat \<lceil>real (length audio) / real fs\<rceil>)) \<and>
    length (zero_padded_chunks fs audio) = nat \<lceil>real (length audio) / real fs\<rceil> \<and>
    (\<forall>c\<in>set (zero_padded_chunks fs audio). length c = fs) \<and>
    concat (zero_padded_chunks fs audio) =
      audio @ replicate (nat \<lceil>real (length audio) / real fs\<rceil> * fs - length audio) 0 \<and>
    createFrames audio fs None = Some (whole_frames fs audio) \<and>
    length (whole_frames fs audio) = nat \<lfloor>real (length audio) / real fs\<rfloor> \<and>
    (\<forall>f\<in>set (whole_frames fs audio). length f = fs) \<and>
    concat (whole_frames fs audio) = take (nat \<lfloor>real (length audio) / real fs\<rfloor> * fs) audio"
proof -
  let ?chunks = "zero_padded_chunks fs audio"
  let ?m = "nat \<lceil>real (length audio) / real fs\<rceil>"
  have count: "length ?chunks = ?m"
    using assms by (rule zero_padded_chunks_count)
  have each: "\<forall>c\<in>set ?chunks. length c = fs"
    by (simp add: zero_padded_chunks_length_each)
  have strict: "processAudio runs v audio =
      Some (process_chunks (\<lambda>k. processFrame (runs k)) 0 ?chunks [] v)"
    if "frameSize (options v) = fs"
    using processAudio_loop_refines [OF assms, of runs audio 0 0 "[]" v] that
    by (simp add: processAudio_def)
  have strict_ok: "\<exists>rs v1. processAudio runs v audio = Some (Inr rs, v1) \<and> length rs = ?m"
    if fs: "frameSize (options v) = fs"
      and ok: "session v \<and> (\<forall>k (u::SileroVAD) fr. \<not> inference_fails (runs k) u fr)"
  proof -
    have "\<exists>rs v1. process_chunks (\<lambda>k. processFrame (runs k)) 0 ?chunks [] v = (Inr rs, v1)"
    proof (rule process_chunks_succeeds
        [where P = "\<lambda>u. session u \<and> frameSize (options u) = fs"])
      fix k and u :: SileroVAD and c
      assume "session u \<and> frameSize (options u) = fs" and "c \<in> set ?chunks"
      then have "session u" "length c = frameSize (options u)" using each by simp_all
      moreover have "\<not> inference_fails (runs k) u c" using ok by simp
      ultimately obtain r u1 where
        "processFrame (runs k) u c = (Inr r, u1)" "session u1" "options u1 = options u"
        using processFrame_succeeds by blast
      with \<open>session u \<and> frameSize (options u) = fs\<close>
      show "\<exists>r v1. processFrame (runs k) u c = (Inr r, v1) \<and>
              session v1 \<and> frameSize (options v1) = fs"
        by simp
    next
      show "session v \<and> frameSize (options v) = fs" using fs ok by simp
    qed
    then obtain rs v1 where
      pc: "process_chunks (\<lambda>k. processFrame (runs k)) 0 ?chunks [] v = (Inr rs, v1)"
      by blast
    from process_chunks_length [OF pc] count have "length rs = ?m" by simp
    with pc strict [OF fs] show ?thesis by simp
  qed
  have pkg: "processAudio_pkg runs w audio =
      Some (process_chunks (\<lambda>k. processFrame_pkg (runs k)) 0 ?chunks [] w)"
    if "frameSize (options w) = fs"
    using processAudio_pkg_loop_refines [OF assms, of runs audio 0 0 "[]" w] that
    by (simp add: processAudio_pkg_def)
  have pkg_ok: "\<exists>rs w1. processAudio_pkg runs w audio = Some (Inr rs, w1) \<and> length rs = ?m"
    if fs: "frameSize (options w) = fs"
  proof -
    have "\<exists>rs w1. process_chunks (\<lambda>k. processFrame_pkg (runs k)) 0 ?chunks [] w = (Inr rs, w1)"
    proof (rule process_chunks_succeeds [where P = "\<lambda>u. frameSize (options u) = fs"])
      fix k and u :: SileroVAD_pkg and c
      assume "frameSize (options u) = fs" and "c \<in> set ?chunks"
      then have "length c = frameSize (options u)" using each by simp
      then obtain r u1 where
        "processFrame_pkg (runs k) u c = (Inr r, u1)" "options u1 = options u"
        using processFrame_pkg_succeeds by blast
      with \<open>frameSize (options u) = fs\<close>
      show "\<exists>r v1. processFrame_pkg (runs k) u c = (Inr r, v1) \<and> frameSize (options v1) = fs"
        by simp
    next
      show "frameSize (options w) = fs" using fs .
    qed
    then obtain rs w1 where
      pc: "process_chunks (\<lambda>k. processFrame_pkg (runs k)) 0 ?chunks [] w = (Inr rs, w1)"
      by blast
    from process_chunks_length [OF pc] count have "length rs = ?m" by simp
    with pc pkg [OF fs] show ?thesis by simp
  qed
  have cat: "concat ?chunks = audio @ replicate (?m * fs - length audio) 0"
    using zero_padded_chunks_concat [OF assms, of audio] count by simp
  have frames: "createFrames audio fs None = Some (whole_frames fs audio)"
    using createFrames_loop_refines [OF assms, of audio 0 "[]"]
    by (simp add: createFrames_def)
  have fl: "nat \<lfloor>real (length audio) / real fs\<rfloor> = length audio div fs"
    by (simp add: floor_divide_of_nat_eq)
  have fcount: "length (whole_frames fs audio) = nat \<lfloor>real (length audio) / real fs\<rfloor>"
    using whole_frames_count [OF assms, of audio] fl by simp
  have feach: "\<forall>f\<in>set (whole_frames fs audio). length f = fs"
    by (simp add: whole_frames_length_each)
  have fcat: "concat (whole_frames fs audio) =
      take (nat \<lfloor>real (length audio) / real fs\<rfloor> * fs) audio"
    using whole_frames_concat [OF assms, of audio] fl by simp
  from strict strict_ok pkg pkg_ok count each cat frames fcount feach fcat
  show ?thesis by blast
qed

text \<open>
  Three samples at a frame size of 1536 give one decision; five samples cut by 2 give
  the chunks 1 2, 3 4 and 5 0 for \<open>processAudio\<close>, and the frames 1 2 and 3 4 for
  \<open>createFrames\<close>.
\<close>

theorem tail_policies_witness:
  "(\<exists>rs v1. processAudio (\<lambda>k. steady_backend 0.9) ready_vad [0.25, 0.5, 0.25] =
       Some (Inr rs, v1) \<and> length rs = 1) \<and>
   (\<exists>rs w1. processAudio_pkg (\<lambda>k. failing_backend) ready_vad_pkg [0.25, 0.5, 0.25] =
       Some (Inr rs, w1) \<and> length rs = 1) \<and>
   zero_padded_chunks 2 [1, 2, 3, 4, 5] = [[1, 2], [3, 4], [5, 0]] \<and>
   length (zero_padded_chunks 2 [1, 2, 3, 4, 5]) = nat \<lceil>real 5 / real 2\<rceil> \<and>
   createFrames [1, 2, 3, 4, 5] 2 None = Some [[1, 2], [3, 4]]"
proof -
  have pos: "(0::nat) < 1536" "(0::nat) < 2" by simp_all
  have ok: "session ready_vad \<and>
      (\<forall>k (u::SileroVAD) fr. \<not> inference_fails ((\<lambda>k. steady_backend 0.9) k) u fr)"
    by (simp add: ready_vad_facts inference_fails_def steady_backend_def)
  have "\<lceil>(1::real) / 512\<rceil> = 1" by (simp add: ceiling_eq_iff)
  then have one: "nat \<lceil>real (length [0.25, 0.5, 0.25 :: real]) / real (1536::nat)\<rceil> = 1"
    by simp
  from tail_policies
    [OF pos(1), of ready_vad "\<lambda>k. steady_backend 0.9" "[0.25, 0.5, 0.25]" ready_vad_pkg]
    ok ready_vad_facts(2)
  have "\<exists>rs v1. processAudio (\<lambda>k. steady_backend 0.9) ready_vad [0.25, 0.5, 0.25] =
       Some (Inr rs, v1) \<and>
       length rs = nat \<lceil>real (length [0.25, 0.5, 0.25 :: real]) / real (1536::nat)\<rceil>"
    by blast
  then have a: "\<exists>rs v1. processAudio (\<lambda>k. steady_backend 0.9) ready_vad [0.25, 0.5, 0.25] =
       Some (Inr rs, v1) \<and> length rs = 1"
    by (simp only: one)
  from tail_policies
    [OF pos(1), of ready_vad "\<lambda>k. failing_backend" "[0.25, 0.5, 0.25]" ready_vad_pkg]
    ready_vad_facts(5)
  have "\<exists>rs w1. processAudio_pkg (\<lambda>k. failing_backend) ready_vad_pkg [0.25, 0.5, 0.25] =
       Some (Inr rs, w1) \<and>
       length rs = nat \<lceil>real (length [0.25, 0.5, 0.25 :: real]) / real (1536::nat)\<rceil>"
    by blast
  then have b: "\<exists>rs w1. processAudio_pkg (\<lambda>k. failing_backend) ready_vad_pkg [0.25, 0.5, 0.25] =
       Some (Inr rs, w1) \<and> length rs = 1"
    by (simp only: one)
  have c: "zero_padded_chunks 2 [1, 2, 3, 4, 5] = [[1, 2], [3, 4], [5, 0]]"
    by (simp add: zero_padded_chunks.simps)
  have w: "whole_frames 2 [1, 2, 3, 4, 5] = [[1, 2], [3, 4]]"
    by (simp add: whole_frames.simps)
  from tail_policies [OF pos(2), of ready_vad "\<lambda>k. failing_backend" "[1, 2, 3, 4, 5]" ready_vad_pkg]
  have "createFrames [1, 2, 3, 4, 5] 2 None = Some (whole_frames 2 [1, 2, 3, 4, 5])"
    and "length (zero_padded_chunks 2 [1, 2, 3, 4, 5]) =
           nat \<lceil>real (length [1, 2, 3, 4, 5 :: real]) / real (2::nat)\<rceil>"
    by blast+
  with a b c w show ?thesis by simp
qed

end
